theory Spec2Isabelle
  imports Main
begin

section \<open>JavaScript dates\<close>

text \<open>
  The scheduler computes with JavaScript \<^verbatim>\<open>Date\<close> objects. A date is modelled by its time
  value, an integer number of milliseconds since the epoch, and the date operations the
  source calls (\<^verbatim>\<open>getDate\<close>, \<^verbatim>\<open>setDate\<close>, \<^verbatim>\<open>getMonth\<close>, \<^verbatim>\<open>setMonth\<close>, \<^verbatim>\<open>getFullYear\<close>,
  \<^verbatim>\<open>setFullYear\<close>) follow the abstract operations of the ECMAScript standard
  (Day, TimeWithinDay, DaysInYear, DayFromYear, YearFromTime, MonthFromTime, DateFromTime,
  MakeDay, MakeDate, LocalTime, UTC), under the same names.

  Two things are fixed by the model and not by the source. Local time is UTC shifted by a
  constant offset \<open>tza\<close> in milliseconds, a parameter of every operation that reads or
  writes calendar fields: a zone with daylight-saving transitions is not covered. Time
  values are unbounded integers: the limit of 8.64e15 ms beyond which JavaScript yields an
  invalid date is not modelled, and numbers (intervals, minutes) are integers.
\<close>

definition msPerDay :: int where
  "msPerDay = 86400000"

definition Day :: "int \<Rightarrow> int" where
  "Day t = t div msPerDay"

definition TimeWithinDay :: "int \<Rightarrow> int" where
  "TimeWithinDay t = t mod msPerDay"

definition DaysInYear :: "int \<Rightarrow> int" where
  "DaysInYear y =
     (if y mod 4 \<noteq> 0 then 365
      else if y mod 100 \<noteq> 0 then 366
      else if y mod 400 \<noteq> 0 then 365
      else 366)"

definition DayFromYear :: "int \<Rightarrow> int" where
  "DayFromYear y =
     365 * (y - 1970) + (y - 1969) div 4 - (y - 1901) div 100 + (y - 1601) div 400"

text \<open>
  YearFromTime is the largest year \<open>y\<close> with \<open>DayFromYear y \<le> Day t\<close>. It is computed from
  the estimate \<open>1970 + 400 * d div 146097\<close> (a year has 146097 / 400 days on average),
  which is off by one year at most.
\<close>

definition YearFromDay :: "int \<Rightarrow> int" where
  "YearFromDay d =
     (let y = 1970 + (400 * d) div 146097
      in if DayFromYear (y + 1) \<le> d then y + 1
         else if DayFromYear y \<le> d then y
         else y - 1)"

definition YearFromTime :: "int \<Rightarrow> int" where
  "YearFromTime t = YearFromDay (Day t)"

definition leapDays :: "int \<Rightarrow> int" where
  "leapDays y = (if DaysInYear y = 366 then 1 else 0)"

definition InLeapYear :: "int \<Rightarrow> int" where
  "InLeapYear t = leapDays (YearFromTime t)"

definition DayWithinYear :: "int \<Rightarrow> int" where
  "DayWithinYear t = Day t - DayFromYear (YearFromTime t)"

definition monthStart :: "int \<Rightarrow> int \<Rightarrow> int" where
  "monthStart l m =
     (if m = 0 then 0
      else if m = 1 then 31
      else if m = 2 then 59 + l
      else if m = 3 then 90 + l
      else if m = 4 then 120 + l
      else if m = 5 then 151 + l
      else if m = 6 then 181 + l
      else if m = 7 then 212 + l
      else if m = 8 then 243 + l
      else if m = 9 then 273 + l
      else if m = 10 then 304 + l
      else 334 + l)"

definition MonthFromTime :: "int \<Rightarrow> int" where
  "MonthFromTime t =
     (let d = DayWithinYear t; l = InLeapYear t
      in if d < 31 then 0
         else if d < 59 + l then 1
         else if d < 90 + l then 2
         else if d < 120 + l then 3
         else if d < 151 + l then 4
         else if d < 181 + l then 5
         else if d < 212 + l then 6
         else if d < 243 + l then 7
         else if d < 273 + l then 8
         else if d < 304 + l then 9
         else if d < 334 + l then 10
         else 11)"

definition DateFromTime :: "int \<Rightarrow> int" where
  "DateFromTime t = DayWithinYear t - monthStart (InLeapYear t) (MonthFromTime t) + 1"

definition MakeDay :: "int \<Rightarrow> int \<Rightarrow> int \<Rightarrow> int" where
  "MakeDay year month date =
     (let ym = year + month div 12; mn = month mod 12
      in DayFromYear ym + monthStart (leapDays ym) mn + date - 1)"

definition MakeDate :: "int \<Rightarrow> int \<Rightarrow> int" where
  "MakeDate day time = day * msPerDay + time"

definition LocalTime :: "int \<Rightarrow> int \<Rightarrow> int" where
  "LocalTime tza t = t + tza"

definition UTC :: "int \<Rightarrow> int \<Rightarrow> int" where
  "UTC tza t = t - tza"

definition getDate :: "int \<Rightarrow> int \<Rightarrow> int" where
  "getDate tza t = DateFromTime (LocalTime tza t)"

definition getMonth :: "int \<Rightarrow> int \<Rightarrow> int" where
  "getMonth tza t = MonthFromTime (LocalTime tza t)"

definition getFullYear :: "int \<Rightarrow> int \<Rightarrow> int" where
  "getFullYear tza t = YearFromTime (LocalTime tza t)"

definition setDate :: "int \<Rightarrow> int \<Rightarrow> int \<Rightarrow> int" where
  "setDate tza t dt =
     (let lt = LocalTime tza t
      in UTC tza (MakeDate (MakeDay (YearFromTime lt) (MonthFromTime lt) dt) (TimeWithinDay lt)))"

definition setMonth :: "int \<Rightarrow> int \<Rightarrow> int \<Rightarrow> int" where
  "setMonth tza t m =
     (let lt = LocalTime tza t
      in UTC tza (MakeDate (MakeDay (YearFromTime lt) m (DateFromTime lt)) (TimeWithinDay lt)))"

definition setFullYear :: "int \<Rightarrow> int \<Rightarrow> int \<Rightarrow> int" where
  "setFullYear tza t y =
     (let lt = LocalTime tza t
      in UTC tza (MakeDate (MakeDay y (MonthFromTime lt) (DateFromTime lt)) (TimeWithinDay lt)))"

section \<open>Documents: reminders and users\<close>

text \<open>
  The reminder schema (models/Reminder.js) and the notification-relevant part of the user
  schema (models/User.js). Enumerated string fields are datatypes; \<open>source\<close> stays a string
  because the scheduler writes a value outside the schema's enumeration. Optional fields
  are options (\<open>None\<close>: the field is absent). \<open>updatedAt\<close> is the timestamp Mongoose
  maintains for a schema declared with \<^verbatim>\<open>timestamps: true\<close>.

  The user schema declares \<^verbatim>\<open>notifications.webPush.subscription\<close> as a nested path
  (an object of fields, with no \<^verbatim>\<open>type\<close> of its own): reading it from a user document
  gives an object whatever is stored, also after \<^verbatim>\<open>null\<close> was assigned to it.
  \<open>pushSubscription\<close> is what is stored: \<open>None\<close> when no endpoint and no keys are
  stored, in which case the object read has no endpoint.
\<close>

datatype recurrence_type = NoRecurrence | Daily | Weekly | Monthly | Yearly

datatype status = Pending | Completed | Cancelled | Snoozed

datatype priority = Low | Medium | High | Urgent

record recurrence =
  rtype :: recurrence_type
  interval :: int
  daysOfWeek :: "int list"
  endDate :: "int option"
  maxOccurrences :: "int option"

record delivery =
  sent :: bool
  sentAt :: "int option"
  error :: "string option"

record notifications =
  webPush :: delivery
  email :: delivery

record sharing =
  isShared :: bool
  shareToken :: "string option"
  sharedBy :: "nat option"
  sharedAt :: "int option"
  expiresAt :: "int option"

record metadata =
  completedAt :: "int option"
  snoozeUntil :: "int option"
  snoozeCount :: int
  source :: string

record reminder =
  rid :: nat
  user :: nat
  title :: string
  description :: "string option"
  scheduledTime :: int
  recurrence :: recurrence
  tags :: "string list"
  priority :: priority
  status :: status
  notifications :: notifications
  sharing :: sharing
  metadata :: metadata
  updatedAt :: int

record subscription =
  endpoint :: string
  p256dh :: string
  auth :: string

record account =
  uid :: nat
  username :: string
  address :: string
  pushEnabled :: bool
  pushSubscription :: "subscription option"
  emailEnabled :: bool
  emailFallback :: bool

text \<open>
  The database: the reminders collection in storage order, and the users collection by
  \<open>_id\<close>.
\<close>

record db =
  reminders :: "reminder list"
  users :: "nat \<rightharpoonup> account"

section \<open>Reminder methods\<close>

text \<open>
  \<^verbatim>\<open>reminderSchema.methods.snooze = function(minutes = 15)\<close>: the argument is an option,
  \<open>None\<close> for a call without argument; \<open>now\<close> is the reading of \<^verbatim>\<open>Date.now()\<close>. The
  function returns the document as mutated, before \<^verbatim>\<open>this.save()\<close>.
\<close>

definition snooze :: "int option \<Rightarrow> int \<Rightarrow> reminder \<Rightarrow> reminder" where
  "snooze minutes now r =
     (let m = (case minutes of None \<Rightarrow> 15 | Some k \<Rightarrow> k)
      in r\<lparr>status := Snoozed,
           metadata := (metadata r)\<lparr>snoozeUntil := Some (now + m * 60 * 1000),
                                     snoozeCount := snoozeCount (metadata r) + 1\<rparr>\<rparr>)"

text \<open>
  \<^verbatim>\<open>reminderSchema.methods.generateNextOccurrence\<close>: \<open>None\<close> is the source's \<^verbatim>\<open>null\<close>. The
  only test after the switch is the one on \<open>endDate\<close>; \<open>maxOccurrences\<close> is not read.
\<close>

definition generateNextOccurrence :: "int \<Rightarrow> reminder \<Rightarrow> int option" where
  "generateNextOccurrence tza r =
     (if rtype (recurrence r) = NoRecurrence then None
      else
        let t = scheduledTime r;
            n = interval (recurrence r);
            nxt = (case rtype (recurrence r) of
                     Daily \<Rightarrow> setDate tza t (getDate tza t + n)
                   | Weekly \<Rightarrow> setDate tza t (getDate tza t + 7 * n)
                   | Monthly \<Rightarrow> setMonth tza t (getMonth tza t + n)
                   | Yearly \<Rightarrow> setFullYear tza t (getFullYear tza t + n)
                   | NoRecurrence \<Rightarrow> t)
        in case endDate (recurrence r) of
             Some e \<Rightarrow> if nxt > e then None else Some nxt
           | None \<Rightarrow> Some nxt)"

section \<open>Queries on the reminders collection\<close>

text \<open>
  The filter documents the source passes to \<^verbatim>\<open>find\<close>, \<^verbatim>\<open>findOne\<close>, \<^verbatim>\<open>updateMany\<close> and
  \<^verbatim>\<open>deleteMany\<close>. A filter document is a list of field conditions that must all hold;
  \<^verbatim>\<open>$or\<close> takes a list of filter documents. A comparison (\<^verbatim>\<open>$lte\<close>, \<^verbatim>\<open>$lt\<close>) on an absent
  field does not match.
\<close>

datatype cond =
    StatusIs status
  | ScheduledTimeLte int
  | ScheduledTimeIs int
  | SnoozeUntilLte int
  | RecurrenceTypeNe recurrence_type
  | RecurrenceTypeIs recurrence_type
  | UserIs nat
  | TitleIs string
  | IsSharedIs bool
  | ExpiresAtLt int
  | CompletedAtLt int
  | UpdatedAtLt int

datatype query = Doc "cond list" | Or "cond list list"

fun holds :: "cond \<Rightarrow> reminder \<Rightarrow> bool" where
  "holds (StatusIs s) r = (status r = s)"
| "holds (ScheduledTimeLte t) r = (scheduledTime r \<le> t)"
| "holds (ScheduledTimeIs t) r = (scheduledTime r = t)"
| "holds (SnoozeUntilLte t) r =
     (case snoozeUntil (metadata r) of None \<Rightarrow> False | Some u \<Rightarrow> u \<le> t)"
| "holds (RecurrenceTypeNe k) r = (rtype (recurrence r) \<noteq> k)"
| "holds (RecurrenceTypeIs k) r = (rtype (recurrence r) = k)"
| "holds (UserIs i) r = (user r = i)"
| "holds (TitleIs s) r = (title r = s)"
| "holds (IsSharedIs b) r = (isShared (sharing r) = b)"
| "holds (ExpiresAtLt t) r =
     (case expiresAt (sharing r) of None \<Rightarrow> False | Some u \<Rightarrow> u < t)"
| "holds (CompletedAtLt t) r =
     (case completedAt (metadata r) of None \<Rightarrow> False | Some u \<Rightarrow> u < t)"
| "holds (UpdatedAtLt t) r = (updatedAt r < t)"

fun matches :: "query \<Rightarrow> reminder \<Rightarrow> bool" where
  "matches (Doc cs) r = list_all (\<lambda>c. holds c r) cs"
| "matches (Or ds) r = list_ex (\<lambda>cs. list_all (\<lambda>c. holds c r) cs) ds"

definition findMany :: "query \<Rightarrow> db \<Rightarrow> reminder list" where
  "findMany q d = filter (matches q) (reminders d)"

definition findOne :: "query \<Rightarrow> db \<Rightarrow> reminder option" where
  "findOne q d = find (matches q) (reminders d)"

definition updateMany :: "query \<Rightarrow> (reminder \<Rightarrow> reminder) \<Rightarrow> db \<Rightarrow> db" where
  "updateMany q upd d = d\<lparr>reminders := map (\<lambda>r. if matches q r then upd r else r) (reminders d)\<rparr>"

definition deleteMany :: "query \<Rightarrow> db \<Rightarrow> db" where
  "deleteMany q d = d\<lparr>reminders := filter (\<lambda>r. \<not> matches q r) (reminders d)\<rparr>"

text \<open>
  \<^verbatim>\<open>reminderSchema.statics.findDueReminders\<close>, with \<open>now\<close> the reading of \<^verbatim>\<open>new Date()\<close>. The
  populated \<open>user\<close> of a returned document is looked up in \<open>populate\<close>: one document per
  user, shared by all reminders of that user, and none (\<^verbatim>\<open>null\<close>) for a user that is not in
  the users collection.
\<close>

definition findDueReminders :: "int \<Rightarrow> db \<Rightarrow> reminder list" where
  "findDueReminders now d =
     findMany (Or [[StatusIs Pending, ScheduledTimeLte now],
                   [StatusIs Snoozed, SnoozeUntilLte now]]) d"

definition populate :: "db \<Rightarrow> nat \<rightharpoonup> account" where
  "populate d = users d"

text \<open>
  The due invariant as the specification words it: a reminder is due iff
  (status = pending and scheduledTime \<le> now) or (status = snoozed and snoozeUntil \<le> now).
\<close>

definition due :: "int \<Rightarrow> reminder \<Rightarrow> bool" where
  "due now r =
     (status r = Pending \<and> scheduledTime r \<le> now \<or>
      status r = Snoozed \<and>
        (case snoozeUntil (metadata r) of None \<Rightarrow> False | Some u \<Rightarrow> u \<le> now))"

section \<open>The environment\<close>

text \<open>
  What the services cannot decide by themselves is read from an environment: the answer of
  the push transport (\<^verbatim>\<open>webpush.sendNotification\<close>) and of the mail transport
  (\<^verbatim>\<open>emailTransporter.sendMail\<close>), whether a mail transporter was configured at start-up,
  whether a database operation throws (with the message of the error), and the readings
  of the clock. \<open>calls\<close> lists what a run did to the outside world, in order: the calls of
  the two channel adapters, and the snooze resets written by the scheduler. A call of the
  push adapter carries the stored subscription it was given, \<open>None\<close> for the object
  without endpoint.
\<close>

datatype push_outcome = Accepted | Refused "int option"

datatype db_op =
    FindDue
  | SaveUser nat
  | SaveDelivery nat
  | SaveSnoozeReset nat
  | FindRecurring
  | FindExisting nat
  | SaveNext nat
  | ExpireShares
  | DeleteCompleted
  | DeleteCancelled

datatype moment =
    DueScan
  | PushSent nat
  | EmailSent nat
  | DeliverySaved nat
  | SnoozeChecked nat
  | SnoozeSaved nat
  | RecurringScan
  | NextSaved nat
  | SharesScan
  | SharesStamped
  | CompletedScan
  | CancelledScan

record env =
  sendNotification :: "subscription \<Rightarrow> nat \<Rightarrow> push_outcome"
  emailTransporter :: bool
  sendMail :: "string \<Rightarrow> nat \<Rightarrow> bool"
  dbFails :: "db_op \<Rightarrow> string option"
  clock :: "moment \<Rightarrow> int"
  localTZA :: int

datatype urgency = NormalUrgency | HighUrgency

datatype event =
    WebPushCall nat "subscription option" urgency
  | EmailCall nat string
  | SnoozeReset nat

section \<open>Saving a reminder document\<close>

text \<open>
  \<^verbatim>\<open>reminder.save()\<close> of a document that was loaded from the collection writes the
  document's modified paths to the stored document of the same \<open>_id\<close>. With nothing
  modified it writes nothing; otherwise Mongoose sets \<open>updatedAt\<close> to the time of the
  save, in the stored and in the loaded document. Saving a document that is not in the
  collection throws. The result is the error message, or the document and the database
  after the save.
\<close>

definition saveReminder :: "int \<Rightarrow> reminder \<Rightarrow> db \<Rightarrow> string + reminder \<times> db" where
  "saveReminder now r d =
     (case find (\<lambda>x. rid x = rid r) (reminders d) of
        None \<Rightarrow> Inl ''DocumentNotFoundError''
      | Some x \<Rightarrow>
          if x = r then Inr (r, d)
          else
            let r' = r\<lparr>updatedAt := now\<rparr>
            in Inr (r', d\<lparr>reminders :=
                          map (\<lambda>y. if rid y = rid r then r' else y) (reminders d)\<rparr>))"

section \<open>The notification service\<close>

text \<open>
  \<^verbatim>\<open>sendWebPush\<close> and \<^verbatim>\<open>sendEmail\<close> return the object \<^verbatim>\<open>{ success, error }\<close>. Both catch
  every error of their transport. Given a subscription object without endpoint,
  \<^verbatim>\<open>webpush.sendNotification\<close> throws before it contacts any endpoint, an error that has
  no status code.
\<close>

record send_result =
  success :: bool
  failure :: "string option"

definition sendWebPush :: "env \<Rightarrow> subscription option \<Rightarrow> nat \<Rightarrow> send_result" where
  "sendWebPush e stored i =
     (case (case stored of
              None \<Rightarrow> Refused None
            | Some sub \<Rightarrow> sendNotification e sub i) of
        Accepted \<Rightarrow> \<lparr>success = True, failure = None\<rparr>
      | Refused statusCode \<Rightarrow>
          if statusCode = Some 410 \<or> statusCode = Some 404
          then \<lparr>success = False, failure = Some ''subscription_invalid''\<rparr>
          else \<lparr>success = False, failure = Some ''push_failed''\<rparr>)"

definition sendEmail :: "env \<Rightarrow> string \<Rightarrow> nat \<Rightarrow> send_result" where
  "sendEmail e to i =
     (if \<not> emailTransporter e then \<lparr>success = False, failure = Some ''email_not_configured''\<rparr>
      else if sendMail e to i then \<lparr>success = True, failure = None\<rparr>
      else \<lparr>success = False, failure = Some ''email_failed''\<rparr>)"

text \<open>
  The object \<^verbatim>\<open>results\<close> of \<^verbatim>\<open>sendReminderNotification\<close>:
  \<^verbatim>\<open>{ webPush: { sent, error }, email: { sent, error } }\<close>.
\<close>

record channel_result =
  rsent :: bool
  rerror :: "string option"

record results =
  rwebPush :: channel_result
  remail :: channel_result

text \<open>
  The state a delivery works on: the reminder document and the user document in memory,
  the database, the calls made so far, and \<open>results\<close>.
\<close>

record delivery_state =
  doc :: reminder
  owner :: account
  store :: db
  calls :: "event list"
  res :: results

definition setWebPush :: "(delivery \<Rightarrow> delivery) \<Rightarrow> reminder \<Rightarrow> reminder" where
  "setWebPush f r = r\<lparr>notifications := (notifications r)\<lparr>webPush := f (webPush (notifications r))\<rparr>\<rparr>"

definition setEmail :: "(delivery \<Rightarrow> delivery) \<Rightarrow> reminder \<Rightarrow> reminder" where
  "setEmail f r = r\<lparr>notifications := (notifications r)\<lparr>email := f (email (notifications r))\<rparr>\<rparr>"

text \<open>
  Lines 137 to 166: the web push attempt. The guard on line 138 is
  \<^verbatim>\<open>webPush.enabled && webPush.subscription\<close>; the second operand is the nested path, an
  object and so always truthy: the push is attempted for every user who has the channel
  enabled, with or without a stored subscription. The \<^verbatim>\<open>catch\<close> of this block is reached
  only when \<^verbatim>\<open>user.save()\<close> throws, since \<^verbatim>\<open>sendWebPush\<close> throws nothing; the user
  document in memory has lost its subscription by then. \<^verbatim>\<open>user.save()\<close> writes the
  modified path, the subscription, to the stored user.
\<close>

definition pushStep :: "env \<Rightarrow> delivery_state \<Rightarrow> delivery_state" where
  "pushStep e s =
     (let r = doc s; u = owner s
      in if pushEnabled u
         then
           let pushResult = sendWebPush e (pushSubscription u) (rid r);
               s1 = s\<lparr>calls := calls s @
                       [WebPushCall (rid r) (pushSubscription u)
                          (if priority r = Urgent then HighUrgency else NormalUrgency)]\<rparr>
           in if success pushResult
              then s1\<lparr>res := (res s)\<lparr>rwebPush := (rwebPush (res s))\<lparr>rsent := True\<rparr>\<rparr>,
                      doc := setWebPush (\<lambda>c. c\<lparr>sent := True,
                                                  sentAt := Some (clock e (PushSent (rid r)))\<rparr>) r\<rparr>
              else
                let s2 = s1\<lparr>res := (res s)\<lparr>rwebPush :=
                                       (rwebPush (res s))\<lparr>rerror := failure pushResult\<rparr>\<rparr>,
                            doc := setWebPush (\<lambda>c. c\<lparr>error := failure pushResult\<rparr>) r\<rparr>
                in if failure pushResult = Some ''subscription_invalid''
                   then
                     let s3 = s2\<lparr>owner := u\<lparr>pushSubscription := None\<rparr>\<rparr>
                     in case dbFails e (SaveUser (uid u)) of
                          None \<Rightarrow>
                            s3\<lparr>store := (store s)\<lparr>users := (users (store s))(uid u :=
                                   map_option (\<lambda>x. x\<lparr>pushSubscription := None\<rparr>)
                                     (users (store s) (uid u)))\<rparr>\<rparr>
                        | Some msg \<Rightarrow>
                            s3\<lparr>res := (res s)\<lparr>rwebPush :=
                                        (rwebPush (res s))\<lparr>rerror := Some msg\<rparr>\<rparr>,
                               doc := setWebPush (\<lambda>c. c\<lparr>error := Some msg\<rparr>) r\<rparr>
                   else s2
         else s)"

text \<open>
  Lines 168 to 199: the email decision and attempt. \<^verbatim>\<open>user.email\<close> is a string, truthy
  when it is not empty. The texts of the mail are formatting and are left out; with them
  total, the \<^verbatim>\<open>catch\<close> of this block is never reached, since \<^verbatim>\<open>sendEmail\<close> throws nothing.
\<close>

definition shouldSendEmail :: "account \<Rightarrow> results \<Rightarrow> bool" where
  "shouldSendEmail u rs =
     (emailEnabled u \<and> (emailFallback u \<and> \<not> rsent (rwebPush rs) \<or> \<not> pushEnabled u))"

definition emailStep :: "env \<Rightarrow> delivery_state \<Rightarrow> delivery_state" where
  "emailStep e s =
     (let r = doc s; u = owner s
      in if shouldSendEmail u (res s) \<and> address u \<noteq> []
         then
           let emailResult = sendEmail e (address u) (rid r);
               s1 = s\<lparr>calls := calls s @ [EmailCall (rid r) (address u)]\<rparr>
           in if success emailResult
              then s1\<lparr>res := (res s)\<lparr>remail := (remail (res s))\<lparr>rsent := True\<rparr>\<rparr>,
                      doc := setEmail (\<lambda>c. c\<lparr>sent := True,
                                                sentAt := Some (clock e (EmailSent (rid r)))\<rparr>) r\<rparr>
              else s1\<lparr>res := (res s)\<lparr>remail := (remail (res s))\<lparr>rerror := failure emailResult\<rparr>\<rparr>,
                      doc := setEmail (\<lambda>c. c\<lparr>error := failure emailResult\<rparr>) r\<rparr>
         else s)"

text \<open>
  \<^verbatim>\<open>sendReminderNotification(reminder, user)\<close>. \<open>user\<close> is \<open>None\<close> for \<^verbatim>\<open>null\<close>, on which
  line 138 throws a TypeError. \<^verbatim>\<open>reminder.save()\<close> on line 202 is outside every \<^verbatim>\<open>try\<close>: its
  error is the error of the call. The outcome is \<open>Inl\<close> with the message when the call
  throws and \<open>Inr\<close> with \<open>results\<close> when it returns; the reminder document, the user
  document, the database and the calls are what the call leaves behind either way.
\<close>

record delivered =
  outcome :: "string + results"
  reminderDoc :: reminder
  userDoc :: "account option"
  dbAfter :: db
  made :: "event list"

definition initialResults :: results where
  "initialResults =
     \<lparr>rwebPush = \<lparr>rsent = False, rerror = None\<rparr>, remail = \<lparr>rsent = False, rerror = None\<rparr>\<rparr>"

definition sendReminderNotification ::
  "env \<Rightarrow> reminder \<Rightarrow> account option \<Rightarrow> db \<Rightarrow> delivered" where
  "sendReminderNotification e r usr d =
     (case usr of
        None \<Rightarrow>
          \<lparr>outcome = Inl ''Cannot read properties of null'', reminderDoc = r, userDoc = None,
           dbAfter = d, made = []\<rparr>
      | Some u \<Rightarrow>
          let s = emailStep e (pushStep e
                    \<lparr>doc = r, owner = u, store = d, calls = [], res = initialResults\<rparr>)
          in (case dbFails e (SaveDelivery (rid r)) of
                Some msg \<Rightarrow>
                  \<lparr>outcome = Inl msg, reminderDoc = doc s, userDoc = Some (owner s),
                   dbAfter = store s, made = calls s\<rparr>
              | None \<Rightarrow>
                  (case saveReminder (clock e (DeliverySaved (rid r))) (doc s) (store s) of
                     Inl msg \<Rightarrow>
                       \<lparr>outcome = Inl msg, reminderDoc = doc s, userDoc = Some (owner s),
                        dbAfter = store s, made = calls s\<rparr>
                   | Inr (r', d') \<Rightarrow>
                       \<lparr>outcome = Inr (res s), reminderDoc = r', userDoc = Some (owner s),
                        dbAfter = d', made = calls s\<rparr>)))"

text \<open>
  \<^verbatim>\<open>sendBulkNotifications(reminders)\<close>. The loop state: the entries of the returned array,
  the reminder documents as the loop leaves them, the populated user documents (shared
  between the reminders of one user), the database and the calls made. An entry is
  \<^verbatim>\<open>{ reminderId, success, ...result }\<close>, or \<^verbatim>\<open>{ reminderId, success: false, error }\<close> when
  \<^verbatim>\<open>sendReminderNotification\<close> threw.
\<close>

record bulk_entry =
  reminderId :: nat
  succeeded :: bool
  channels :: "results option"
  thrown :: "string option"

record bulk_state =
  entries :: "bulk_entry list"
  docs :: "reminder list"
  loaded :: "nat \<rightharpoonup> account"
  database :: db
  trace :: "event list"

definition bulkEntry :: "reminder \<Rightarrow> string + results \<Rightarrow> bulk_entry" where
  "bulkEntry r out =
     (case out of
        Inr result \<Rightarrow>
          \<lparr>reminderId = rid r,
           succeeded = (rsent (rwebPush result) \<or> rsent (remail result)),
           channels = Some result, thrown = None\<rparr>
      | Inl msg \<Rightarrow>
          \<lparr>reminderId = rid r, succeeded = False, channels = None, thrown = Some msg\<rparr>)"

fun sendBulkLoop :: "env \<Rightarrow> reminder list \<Rightarrow> bulk_state \<Rightarrow> bulk_state" where
  "sendBulkLoop e [] b = b"
| "sendBulkLoop e (r # rs) b =
     (let x = sendReminderNotification e r (loaded b (user r)) (database b)
      in sendBulkLoop e rs
           (b\<lparr>entries := entries b @ [bulkEntry r (outcome x)],
              docs := docs b @ [reminderDoc x],
              loaded := (case userDoc x of
                           None \<Rightarrow> loaded b
                         | Some u \<Rightarrow> (loaded b)(user r \<mapsto> u)),
              database := dbAfter x,
              trace := trace b @ made x\<rparr>))"

definition sendBulkNotifications ::
  "env \<Rightarrow> reminder list \<Rightarrow> (nat \<rightharpoonup> account) \<Rightarrow> db \<Rightarrow> bulk_state" where
  "sendBulkNotifications e rs usrs d =
     sendBulkLoop e rs \<lparr>entries = [], docs = [], loaded = usrs, database = d, trace = []\<rparr>"

section \<open>The scheduler service\<close>

text \<open>
  \<^verbatim>\<open>processDueReminders\<close>. The result is the database after the cycle and the calls of the
  cycle. An error of the scan, or of a save in the reset loop, is caught by the \<^verbatim>\<open>try\<close>
  around the whole body: the cycle ends there, with what was written so far.
\<close>

fun resetSnoozed :: "env \<Rightarrow> reminder list \<Rightarrow> db \<times> event list \<Rightarrow> db \<times> event list" where
  "resetSnoozed e [] w = w"
| "resetSnoozed e (r # rs) (d, tr) =
     (if status r = Snoozed \<and>
         (case snoozeUntil (metadata r) of
            None \<Rightarrow> False
          | Some u \<Rightarrow> u \<le> clock e (SnoozeChecked (rid r)))
      then
        (case dbFails e (SaveSnoozeReset (rid r)) of
           Some msg \<Rightarrow> (d, tr)
         | None \<Rightarrow>
             (case saveReminder (clock e (SnoozeSaved (rid r)))
                     (r\<lparr>status := Pending, metadata := (metadata r)\<lparr>snoozeUntil := None\<rparr>\<rparr>) d of
                Inl msg \<Rightarrow> (d, tr)
              | Inr (r', d') \<Rightarrow> resetSnoozed e rs (d', tr @ [SnoozeReset (rid r)])))
      else resetSnoozed e rs (d, tr))"

definition processDueReminders :: "env \<Rightarrow> db \<Rightarrow> db \<times> event list" where
  "processDueReminders e d =
     (case dbFails e FindDue of
        Some msg \<Rightarrow> (d, [])
      | None \<Rightarrow>
          let dueReminders = findDueReminders (clock e DueScan) d
          in if dueReminders = [] then (d, [])
             else
               let b = sendBulkNotifications e dueReminders (populate d) d
               in resetSnoozed e (docs b) (database b, trace b))"

text \<open>
  \<^verbatim>\<open>new Reminder({...})\<close> as \<^verbatim>\<open>processRecurringReminders\<close> builds it: the fields it passes,
  and the schema's defaults for the others. \<open>validate\<close> is the validation Mongoose runs
  when a new document is saved, for the modelled paths: required and length-limited
  strings, the minimum of \<open>interval\<close>, the range of \<open>daysOfWeek\<close>, and the enumeration of
  \<open>metadata.source\<close> (lines 842 to 846 of the schema).
\<close>

definition sourceEnum :: "string list" where
  "sourceEnum = [''manual'', ''shared'', ''calendar'', ''import'']"

definition validate :: "reminder \<Rightarrow> bool" where
  "validate r =
     (title r \<noteq> [] \<and> length (title r) \<le> 200 \<and>
      (case description r of None \<Rightarrow> True | Some s \<Rightarrow> length s \<le> 1000) \<and>
      1 \<le> interval (recurrence r) \<and>
      list_all (\<lambda>k. 0 \<le> k \<and> k \<le> 6) (daysOfWeek (recurrence r)) \<and>
      list_all (\<lambda>s. length s \<le> 50) (tags r) \<and>
      source (metadata r) \<in> set sourceEnum)"

definition freshId :: "db \<Rightarrow> nat" where
  "freshId d = Suc (fold max (map rid (reminders d)) 0)"

definition nextReminder :: "reminder \<Rightarrow> nat \<Rightarrow> int \<Rightarrow> nat \<Rightarrow> reminder" where
  "nextReminder r userId nextOccurrence i =
     \<lparr>rid = i, user = userId, title = title r, description = description r,
      scheduledTime = nextOccurrence, recurrence = recurrence r, tags = tags r,
      priority = priority r, status = Pending,
      notifications = \<lparr>webPush = \<lparr>sent = False, sentAt = None, error = None\<rparr>,
                       email = \<lparr>sent = False, sentAt = None, error = None\<rparr>\<rparr>,
      sharing = \<lparr>isShared = False, shareToken = None, sharedBy = None, sharedAt = None,
                 expiresAt = None\<rparr>,
      metadata = \<lparr>completedAt = None, snoozeUntil = None, snoozeCount = 0,
                  source = ''recurring''\<rparr>,
      updatedAt = 0\<rparr>"

text \<open>
  \<^verbatim>\<open>nextReminder.save()\<close> of the new document: validation first, then the insert, which
  stamps \<open>updatedAt\<close>.
\<close>

definition saveNew :: "env \<Rightarrow> nat \<Rightarrow> reminder \<Rightarrow> db \<Rightarrow> string + db" where
  "saveNew e parent n d =
     (if \<not> validate n then Inl ''ValidationError''
      else case dbFails e (SaveNext parent) of
             Some msg \<Rightarrow> Inl msg
           | None \<Rightarrow>
               Inr (d\<lparr>reminders := reminders d @ [n\<lparr>updatedAt := clock e (NextSaved parent)\<rparr>]\<rparr>))"

text \<open>
  \<^verbatim>\<open>processRecurringReminders\<close>. Every error inside the loop body (a \<^verbatim>\<open>null\<close> populated
  user, a failing query, a rejected save) is caught per reminder and counted as skipped.
\<close>

record recurring_run =
  dbOut :: db
  created :: nat
  skipped :: nat

fun recurringLoop :: "env \<Rightarrow> reminder list \<Rightarrow> recurring_run \<Rightarrow> recurring_run" where
  "recurringLoop e [] w = w"
| "recurringLoop e (r # rs) w =
     (let skip = w\<lparr>skipped := skipped w + 1\<rparr>
      in recurringLoop e rs
           (case generateNextOccurrence (localTZA e) r of
              None \<Rightarrow> skip
            | Some nextOccurrence \<Rightarrow>
                (case users (dbOut w) (user r) of
                   None \<Rightarrow> skip
                 | Some u \<Rightarrow>
                     (case dbFails e (FindExisting (rid r)) of
                        Some msg \<Rightarrow> skip
                      | None \<Rightarrow>
                          (case findOne (Doc [UserIs (uid u), TitleIs (title r),
                                              ScheduledTimeIs nextOccurrence,
                                              RecurrenceTypeIs (rtype (recurrence r))])
                                  (dbOut w) of
                             Some existingReminder \<Rightarrow> skip
                           | None \<Rightarrow>
                               (case saveNew e (rid r)
                                       (nextReminder r (uid u) nextOccurrence (freshId (dbOut w)))
                                       (dbOut w) of
                                  Inl msg \<Rightarrow> skip
                                | Inr d' \<Rightarrow> w\<lparr>dbOut := d', created := created w + 1\<rparr>))))))"

definition processRecurringReminders :: "env \<Rightarrow> db \<Rightarrow> recurring_run" where
  "processRecurringReminders e d =
     (case dbFails e FindRecurring of
        Some msg \<Rightarrow> \<lparr>dbOut = d, created = 0, skipped = 0\<rparr>
      | None \<Rightarrow>
          recurringLoop e
            (findMany (Doc [RecurrenceTypeNe NoRecurrence, StatusIs Completed,
                            ScheduledTimeLte (clock e RecurringScan)]) d)
            \<lparr>dbOut = d, created = 0, skipped = 0\<rparr>)"

text \<open>
  \<^verbatim>\<open>cleanupExpiredData\<close>: three database operations in sequence, each with its own reading
  of the clock; an error ends the job with what was done so far. The schema is declared
  with \<^verbatim>\<open>timestamps: true\<close>, so \<^verbatim>\<open>updateMany\<close> also sets \<open>updatedAt\<close> on the documents it
  matches.
\<close>

definition unshare :: "int \<Rightarrow> reminder \<Rightarrow> reminder" where
  "unshare stamp r =
     r\<lparr>sharing := (sharing r)\<lparr>shareToken := None, expiresAt := None, sharedAt := None,
                               sharedBy := None, isShared := False\<rparr>,
       updatedAt := stamp\<rparr>"

definition daysAgo :: "env \<Rightarrow> int \<Rightarrow> int \<Rightarrow> int" where
  "daysAgo e t n = setDate (localTZA e) t (getDate (localTZA e) t - n)"

definition cleanupExpiredData :: "env \<Rightarrow> db \<Rightarrow> db" where
  "cleanupExpiredData e d =
     (case dbFails e ExpireShares of
        Some msg \<Rightarrow> d
      | None \<Rightarrow>
          let d1 = updateMany (Doc [IsSharedIs True, ExpiresAtLt (clock e SharesScan)])
                     (unshare (clock e SharesStamped)) d
          in (case dbFails e DeleteCompleted of
                Some msg \<Rightarrow> d1
              | None \<Rightarrow>
                  let ninetyDaysAgo = daysAgo e (clock e CompletedScan) 90;
                      d2 = deleteMany (Doc [StatusIs Completed, CompletedAtLt ninetyDaysAgo]) d1
                  in (case dbFails e DeleteCancelled of
                        Some msg \<Rightarrow> d2
                      | None \<Rightarrow>
                          let thirtyDaysAgo = daysAgo e (clock e CancelledScan) 30
                          in deleteMany (Doc [StatusIs Cancelled, UpdatedAtLt thirtyDaysAgo]) d2)))"

section \<open>Vocabulary of the properties\<close>

text \<open>
  What the properties below speak about, in terms of the functions above: the kinds of
  calls, the answer of the push adapter for a reminder and its user (\<open>None\<close> when the
  service does not call it), and whether the push was delivered.
\<close>

fun isEmailCall :: "event \<Rightarrow> bool" where
  "isEmailCall (EmailCall i a) = True"
| "isEmailCall ev = False"

fun isWebPushCall :: "event \<Rightarrow> bool" where
  "isWebPushCall (WebPushCall i sub g) = True"
| "isWebPushCall ev = False"

definition pushAttempt :: "env \<Rightarrow> reminder \<Rightarrow> account \<Rightarrow> send_result option" where
  "pushAttempt e r u =
     (if pushEnabled u then Some (sendWebPush e (pushSubscription u) (rid r)) else None)"

definition pushSucceeded :: "env \<Rightarrow> reminder \<Rightarrow> account \<Rightarrow> bool" where
  "pushSucceeded e r u =
     (case pushAttempt e r u of None \<Rightarrow> False | Some pr \<Rightarrow> success pr)"

definition start :: "reminder \<Rightarrow> account \<Rightarrow> db \<Rightarrow> delivery_state" where
  "start r u d = \<lparr>doc = r, owner = u, store = d, calls = [], res = initialResults\<rparr>"

text \<open>
  The error a failed push leaves on the reminder and in \<open>results\<close>: the adapter's, unless
  the subscription was found invalid and saving the user threw, in which case the
  \<^verbatim>\<open>catch\<close> overwrites it with the message of that error.
\<close>

definition recordedPushError :: "env \<Rightarrow> account \<Rightarrow> send_result \<Rightarrow> string option" where
  "recordedPushError e u pr =
     (if failure pr = Some ''subscription_invalid''
      then (case dbFails e (SaveUser (uid u)) of None \<Rightarrow> failure pr | Some msg \<Rightarrow> Some msg)
      else failure pr)"

text \<open>
  The answer of the email adapter for a reminder and its user, \<open>None\<close> when the service does
  not call it. That this is the case in which the service calls the adapter is lemma
  \<open>emailStep_pushStep\<close> below.
\<close>

definition emailAttempt :: "env \<Rightarrow> reminder \<Rightarrow> account \<Rightarrow> send_result option" where
  "emailAttempt e r u =
     (if emailEnabled u \<and> (emailFallback u \<and> \<not> pushSucceeded e r u \<or> \<not> pushEnabled u) \<and>
         address u \<noteq> []
      then Some (sendEmail e (address u) (rid r)) else None)"

definition emailSucceeded :: "env \<Rightarrow> reminder \<Rightarrow> account \<Rightarrow> bool" where
  "emailSucceeded e r u =
     (case emailAttempt e r u of None \<Rightarrow> False | Some er \<Rightarrow> success er)"

text \<open>
  An entry of the bulk result is consistent when its \<open>success\<close> flag says that at least one
  of the channel outcomes it carries has \<open>sent = true\<close>.
\<close>

definition consistent :: "bulk_entry \<Rightarrow> bool" where
  "consistent b =
     (succeeded b =
        (case channels b of
           None \<Rightarrow> False
         | Some c \<Rightarrow> rsent (rwebPush c) \<or> rsent (remail c)))"

section \<open>Example documents and environments\<close>

text \<open>
  A user with push and email fallback enabled, one of that user's reminders, a database holding
  both, and environments: one in which every transport and every database operation
  succeeds, one whose push endpoint answers 410 Gone, one whose push endpoint cannot be
  reached and whose mail transport fails.
\<close>

definition exSubscription :: subscription where
  "exSubscription =
     \<lparr>endpoint = ''https://push.example/send/1'', p256dh = ''key'', auth = ''secret''\<rparr>"

definition exUser :: account where
  "exUser =
     \<lparr>uid = 7, username = ''sara'', address = ''sara@example.com'', pushEnabled = True,
      pushSubscription = Some exSubscription, emailEnabled = True, emailFallback = True\<rparr>"

definition exReminder :: reminder where
  "exReminder =
     \<lparr>rid = 1, user = 7, title = ''Pay rent'', description = None,
      scheduledTime = 1700000000000,
      recurrence = \<lparr>rtype = Daily, interval = 1, daysOfWeek = [], endDate = None,
                    maxOccurrences = Some 3\<rparr>,
      tags = [], priority = Medium, status = Pending,
      notifications = \<lparr>webPush = \<lparr>sent = False, sentAt = None, error = None\<rparr>,
                       email = \<lparr>sent = False, sentAt = None, error = None\<rparr>\<rparr>,
      sharing = \<lparr>isShared = False, shareToken = None, sharedBy = None, sharedAt = None,
                 expiresAt = None\<rparr>,
      metadata = \<lparr>completedAt = None, snoozeUntil = None, snoozeCount = 0,
                  source = ''manual''\<rparr>,
      updatedAt = 1699990000000\<rparr>"

definition exDb :: db where
  "exDb = \<lparr>reminders = [exReminder], users = [7 \<mapsto> exUser]\<rparr>"

definition exEnv :: env where
  "exEnv =
     \<lparr>sendNotification = (\<lambda>sub i. Accepted), emailTransporter = True,
      sendMail = (\<lambda>a i. True), dbFails = (\<lambda>op. None), clock = (\<lambda>m. 1700000060000),
      localTZA = 0\<rparr>"

definition exGone :: env where
  "exGone = exEnv\<lparr>sendNotification := (\<lambda>sub i. Refused (Some 410))\<rparr>"

definition exDown :: env where
  "exDown = exEnv\<lparr>sendNotification := (\<lambda>sub i. Refused None), sendMail := (\<lambda>a i. False)\<rparr>"

text \<open>
  The delivery of \<open>exReminder\<close> to \<open>exUser\<close> when the endpoint answers 410 Gone, and the
  delivery of the next cycle: the reminder as it was left, the user as the database now
  holds that user, and a push transport that would accept any subscription.
\<close>

definition exAfterGone :: delivered where
  "exAfterGone = sendReminderNotification exGone exReminder (Some exUser) exDb"

definition exNextCycle :: delivered where
  "exNextCycle =
     sendReminderNotification exEnv (reminderDoc exAfterGone)
       (populate (dbAfter exAfterGone) 7) (dbAfter exAfterGone)"

text \<open>The reminder after an earlier cycle whose push failed.\<close>

definition exFailed :: reminder where
  "exFailed = setWebPush (\<lambda>c. c\<lparr>error := Some ''push_failed''\<rparr>) exReminder"

text \<open>
  The third instance of the daily series of \<open>exReminder\<close>, whose \<open>maxOccurrences\<close> is 3,
  completed; and \<open>exReminder\<close> itself, completed.
\<close>

definition exThird :: reminder where
  "exThird = exReminder\<lparr>rid := 3, scheduledTime := 1700172800000, status := Completed\<rparr>"

definition exParent :: reminder where
  "exParent = exReminder\<lparr>status := Completed,
                metadata := (metadata exReminder)\<lparr>completedAt := Some 1700000030000\<rparr>\<rparr>"

text \<open>
  Old reminders: completed at \<open>t\<close>, cancelled and last updated at \<open>t\<close>, and a reminder
  carrying a share link that expires at \<open>t\<close>. \<open>exOld\<close> holds a reminder completed 91 days
  before the clock of \<open>exEnv\<close>, one completed 89 days before, one cancelled 31 days before,
  and one cancelled 40 days before whose share link expired a day earlier.
\<close>

definition exCompleted :: "nat \<Rightarrow> int \<Rightarrow> reminder" where
  "exCompleted i t =
     exReminder\<lparr>rid := i, status := Completed,
                 metadata := (metadata exReminder)\<lparr>completedAt := Some t\<rparr>, updatedAt := t\<rparr>"

definition exCancelled :: "nat \<Rightarrow> int \<Rightarrow> reminder" where
  "exCancelled i t = exReminder\<lparr>rid := i, status := Cancelled, updatedAt := t\<rparr>"

definition exShared :: "int \<Rightarrow> reminder \<Rightarrow> reminder" where
  "exShared t r =
     r\<lparr>sharing := \<lparr>isShared = True, shareToken = Some ''token'', sharedBy = Some 7,
                    sharedAt = Some (t - msPerDay), expiresAt = Some t\<rparr>\<rparr>"

definition exOld :: "reminder list" where
  "exOld =
     [exCompleted 1 (1700000060000 - 91 * msPerDay),
      exCompleted 2 (1700000060000 - 89 * msPerDay),
      exCancelled 3 (1700000060000 - 31 * msPerDay),
      exShared (1700000060000 - 41 * msPerDay) (exCancelled 4 (1700000060000 - 40 * msPerDay))]"

section \<open>Vocabulary of the cleanup\<close>

text \<open>
  What the first step of the cleanup does to one reminder, and the two age tests of the
  specification: completed more than 90 days ago, by \<open>completedAt\<close>; cancelled and older
  than 30 days, by \<open>updatedAt\<close>, the only age the query reads.
\<close>

definition expireShare :: "env \<Rightarrow> reminder \<Rightarrow> reminder" where
  "expireShare e r =
     (if isShared (sharing r) \<and>
         (case expiresAt (sharing r) of None \<Rightarrow> False | Some x \<Rightarrow> x < clock e SharesScan)
      then unshare (clock e SharesStamped) r else r)"

definition oldCompleted :: "env \<Rightarrow> reminder \<Rightarrow> bool" where
  "oldCompleted e r =
     (status r = Completed \<and>
      (case completedAt (metadata r) of
         None \<Rightarrow> False
       | Some c \<Rightarrow> c < clock e CompletedScan - 90 * msPerDay))"

definition oldCancelled :: "env \<Rightarrow> reminder \<Rightarrow> bool" where
  "oldCancelled e r =
     (status r = Cancelled \<and> updatedAt r < clock e CancelledScan - 30 * msPerDay)"

section \<open>Vocabulary of the due cycle\<close>

text \<open>
  The reminder an event is about and the snooze resets among the events; what a delivery
  must leave alone in a reminder (its id, its status and its metadata, where the snooze
  state lives); and the number of push calls and of email calls a trace holds for one
  reminder.
\<close>

fun isSnoozeReset :: "event \<Rightarrow> bool" where
  "isSnoozeReset (SnoozeReset i) = True"
| "isSnoozeReset ev = False"

fun about :: "event \<Rightarrow> nat" where
  "about (WebPushCall i sub g) = i"
| "about (EmailCall i a) = i"
| "about (SnoozeReset i) = i"

definition core :: "reminder \<Rightarrow> nat \<times> status \<times> metadata" where
  "core r = (rid r, status r, metadata r)"

definition pushCount :: "nat \<Rightarrow> event list \<Rightarrow> nat" where
  "pushCount i tr = length (filter (\<lambda>ev. isWebPushCall ev \<and> about ev = i) tr)"

definition emailCount :: "nat \<Rightarrow> event list \<Rightarrow> nat" where
  "emailCount i tr = length (filter (\<lambda>ev. isEmailCall ev \<and> about ev = i) tr)"

text \<open>The reminder of \<open>exDb\<close>, snoozed until a second before the clock of \<open>exEnv\<close>.\<close>

definition exSnoozed :: reminder where
  "exSnoozed =
     exReminder\<lparr>status := Snoozed,
                 metadata := (metadata exReminder)\<lparr>snoozeUntil := Some 1700000059000,
                                                    snoozeCount := 1\<rparr>\<rparr>"

section \<open>Dates: the year of a day\<close>

text \<open>
  The estimate of \<open>YearFromDay\<close> is one year off at most, on either side, so the
  correction finds the year whose days contain \<open>d\<close>.
\<close>

lemma div_bounds: "k * (a div k) \<le> a \<and> a < k * (a div k) + k" if "0 < k" for a k :: int
proof -
  have "a = k * (a div k) + a mod k" by simp
  moreover have "0 \<le> a mod k" "a mod k < k" using that by simp_all
  ultimately show ?thesis by linarith
qed

lemma DayFromYear_lower: "DayFromYear (1970 + (400 * d) div 146097 - 1) \<le> d"
proof -
  define q where "q = (400 * d) div 146097"
  define a where "a = q div 4"
  define b where "b = (q + 68) div 100"
  define c where "c = (q + 368) div 400"
  have q: "146097 * q \<le> 400 * d"
    using div_bounds [of 146097 "400 * d"] by (simp add: q_def)
  have a: "4 * a \<le> q" using div_bounds [of 4 q] by (simp add: a_def)
  have b: "q + 68 < 100 * b + 100" using div_bounds [of 100 "q + 68"] by (simp add: b_def)
  have c: "400 * c \<le> q + 368" using div_bounds [of 400 "q + 368"] by (simp add: c_def)
  have "DayFromYear (1970 + q - 1) = 365 * (q - 1) + a - b + c"
    by (simp add: DayFromYear_def a_def b_def c_def algebra_simps)
  moreover have "365 * (q - 1) + a - b + c \<le> d"
  proof -
    have "400 * a \<le> 100 * q" using a by linarith
    moreover have "4 * q - 128 < 400 * b" using b by linarith
    moreover have "400 * (365 * (q - 1) + a - b + c) =
        146000 * q - 146000 + 400 * a - 400 * b + 400 * c"
      by (simp add: algebra_simps)
    ultimately have "400 * (365 * (q - 1) + a - b + c) \<le> 400 * d"
      using q c by linarith
    then show ?thesis by simp
  qed
  ultimately show ?thesis by (simp add: q_def)
qed

lemma DayFromYear_upper: "d < DayFromYear (1970 + (400 * d) div 146097 + 2)"
proof -
  define q where "q = (400 * d) div 146097"
  define a where "a = (q + 3) div 4"
  define b where "b = (q + 71) div 100"
  define c where "c = (q + 371) div 400"
  have q: "400 * d < 146097 * q + 146097"
    using div_bounds [of 146097 "400 * d"] by (simp add: q_def)
  have a: "q + 3 < 4 * a + 4" using div_bounds [of 4 "q + 3"] by (simp add: a_def)
  have b: "100 * b \<le> q + 71" using div_bounds [of 100 "q + 71"] by (simp add: b_def)
  have c: "q + 371 < 400 * c + 400" using div_bounds [of 400 "q + 371"] by (simp add: c_def)
  have "DayFromYear (1970 + q + 2) = 365 * (q + 2) + a - b + c"
    by (simp add: DayFromYear_def a_def b_def c_def algebra_simps)
  moreover have "d < 365 * (q + 2) + a - b + c"
  proof -
    have "100 * q - 100 < 400 * a" using a by linarith
    moreover have "400 * b \<le> 4 * q + 284" using b by linarith
    moreover have "400 * (365 * (q + 2) + a - b + c) =
        146000 * q + 292000 + 400 * a - 400 * b + 400 * c"
      by (simp add: algebra_simps)
    ultimately have "400 * d < 400 * (365 * (q + 2) + a - b + c)"
      using q c by linarith
    then show ?thesis by simp
  qed
  ultimately show ?thesis by (simp add: q_def)
qed

lemma YearFromDay_bracket:
  "DayFromYear (YearFromDay d) \<le> d \<and> d < DayFromYear (YearFromDay d + 1)"
  using DayFromYear_lower [of d] DayFromYear_upper [of d]
  by (simp add: YearFromDay_def Let_def algebra_simps)

lemma div_step: "a div k \<le> (a + 1) div k" if "0 < k" for a k :: int
  using that by (simp add: zdiv_mono1)

lemma div_step_up: "(a + 1) div k \<le> a div k + 1" if "0 < k" for a k :: int
proof -
  have "(a + 1) div k \<le> (a + k) div k"
    using that by (intro zdiv_mono1) simp_all
  also have "\<dots> = a div k + 1"
    using that by (simp add: div_add_self2)
  finally show ?thesis .
qed

lemma DayFromYear_Suc: "DayFromYear y < DayFromYear (y + 1)"
proof -
  define a where "a = (y - 1969) div 4"
  define a' where "a' = (y - 1969 + 1) div 4"
  define b where "b = (y - 1901) div 100"
  define b' where "b' = (y - 1901 + 1) div 100"
  define c where "c = (y - 1601) div 400"
  define c' where "c' = (y - 1601 + 1) div 400"
  have a: "a \<le> a'"
    unfolding a_def a'_def by (rule div_step) simp
  have b: "b' \<le> b + 1"
    unfolding b_def b'_def by (rule div_step_up) simp
  have c: "c \<le> c'"
    unfolding c_def c'_def by (rule div_step) simp
  have e: "y + 1 - 1969 = y - 1969 + 1" "y + 1 - 1901 = y - 1901 + 1"
    "y + 1 - 1601 = y - 1601 + 1"
    by simp_all
  have l: "DayFromYear y = 365 * (y - 1970) + a - b + c"
    by (simp add: DayFromYear_def a_def b_def c_def)
  have r: "DayFromYear (y + 1) = 365 * (y - 1970) + 365 + a' - b' + c'"
    unfolding DayFromYear_def e a'_def b'_def c'_def by (simp add: algebra_simps)
  show ?thesis
    unfolding l r using a b c by linarith
qed

lemma DayFromYear_less: "DayFromYear y < DayFromYear (y + 1 + int n)"
proof (induction n)
  case 0
  then show ?case by (simp add: DayFromYear_Suc)
next
  case (Suc n)
  have "DayFromYear (y + 1 + int n) < DayFromYear (y + 1 + int n + 1)"
    by (rule DayFromYear_Suc)
  then show ?case
    using Suc by (simp add: add.assoc add.commute)
qed

lemma DayFromYear_mono: "y \<le> z \<Longrightarrow> DayFromYear y \<le> DayFromYear z"
proof (cases "y = z")
  case True
  then show ?thesis by simp
next
  case False
  assume "y \<le> z"
  with False have "z = y + 1 + int (nat (z - y - 1))" by simp
  then show ?thesis
    using DayFromYear_less [of y "nat (z - y - 1)"] by simp
qed

text \<open>
  A later year starts later, so \<open>YearFromDay d\<close> is the largest year that starts on day \<open>d\<close> or before, which is how
  the standard defines YearFromTime.
\<close>

lemma YearFromDay_largest: "(DayFromYear y \<le> d) = (y \<le> YearFromDay d)"
proof
  assume "DayFromYear y \<le> d"
  show "y \<le> YearFromDay d"
  proof (rule ccontr)
    assume "\<not> y \<le> YearFromDay d"
    then have "YearFromDay d + 1 \<le> y" by simp
    then have "DayFromYear (YearFromDay d + 1) \<le> DayFromYear y"
      by (rule DayFromYear_mono)
    then show False
      using YearFromDay_bracket [of d] \<open>DayFromYear y \<le> d\<close> by simp
  qed
next
  assume "y \<le> YearFromDay d"
  then have "DayFromYear y \<le> DayFromYear (YearFromDay d)"
    by (rule DayFromYear_mono)
  then show "DayFromYear y \<le> d"
    using YearFromDay_bracket [of d] by simp
qed

text \<open>
  An example of the month arithmetic: 31 January 2024, 10:00 UTC, advanced by one month,
  is 31 February, which is 2 March 2024, 10:00 UTC.
\<close>

lemma monthly_example:
  "getFullYear 0 1706695200000 = 2024 \<and> getMonth 0 1706695200000 = 0 \<and>
   getDate 0 1706695200000 = 31 \<and>
   setMonth 0 1706695200000 (getMonth 0 1706695200000 + 1) = 1709373600000 \<and>
   getMonth 0 1709373600000 = 2 \<and> getDate 0 1709373600000 = 2"
  by code_simp

section \<open>Dates: shifting by days\<close>

lemma MonthFromTime_range: "0 \<le> MonthFromTime t \<and> MonthFromTime t \<le> 11"
  by (simp add: MonthFromTime_def Let_def)

text \<open>
  \<^verbatim>\<open>d.setDate(d.getDate() + n)\<close> moves a date by \<open>n\<close> days of 24 hours, whatever the offset
  of local time.
\<close>

lemma setDate_getDate: "setDate tza t (getDate tza t + n) = t + n * msPerDay"
proof -
  let ?lt = "LocalTime tza t"
  have m: "MonthFromTime ?lt div 12 = 0" "MonthFromTime ?lt mod 12 = MonthFromTime ?lt"
    using MonthFromTime_range [of ?lt] by auto
  have "MakeDay (YearFromTime ?lt) (MonthFromTime ?lt) (DateFromTime ?lt + n) = Day ?lt + n"
    by (simp add: MakeDay_def Let_def m DateFromTime_def DayWithinYear_def InLeapYear_def)
  then show ?thesis
    by (simp add: setDate_def getDate_def Let_def MakeDate_def UTC_def LocalTime_def Day_def
        TimeWithinDay_def algebra_simps)
qed

section \<open>Snoozing\<close>

text \<open>
  C10. The snooze operation sets the status to snoozed, sets \<open>snoozeUntil\<close> to 15 minutes
  after the current time when it is called without a duration and to \<open>now + m\<close> minutes
  when a duration \<open>m\<close> is given, increments \<open>snoozeCount\<close> by exactly one, and leaves
  \<open>scheduledTime\<close> unchanged.
\<close>

theorem snooze_sets_fields:
  "status (snooze minutes now r) = Snoozed \<and>
   snoozeUntil (metadata (snooze None now r)) = Some (now + 15 * 60 * 1000) \<and>
   snoozeUntil (metadata (snooze (Some m) now r)) = Some (now + m * 60 * 1000) \<and>
   snoozeCount (metadata (snooze minutes now r)) = snoozeCount (metadata r) + 1 \<and>
   scheduledTime (snooze minutes now r) = scheduledTime r"
  by (simp add: snooze_def Let_def)

section \<open>The due scan\<close>

text \<open>
  C5. For every state of the reminder store and every instant \<open>now\<close>, the due scan returns
  exactly the reminders that are due, each once and in storage order: those with
  (status = pending and scheduledTime \<le> now) or (status = snoozed and snoozeUntil \<le> now).
  It is a function of the store that returns the list only, so it changes no reminder;
  with no due reminder the list is empty, which is a result and not an error.
\<close>

theorem findDueReminders_exact:
  "findDueReminders now d = filter (due now) (reminders d)"
  unfolding findDueReminders_def findMany_def
  by (rule filter_cong) (simp_all add: due_def)

text \<open>The reminders the scan returns are due, and they are reminders of the store.\<close>

lemma findDueReminders_set:
  "set (findDueReminders now d) = {r \<in> set (reminders d). due now r}"
  unfolding findDueReminders_def findMany_def
  by (auto simp: due_def)

section \<open>One delivery, step by step\<close>

lemma sendWebPush_failure:
  "\<not> success (sendWebPush e sub i) \<Longrightarrow> failure (sendWebPush e sub i) \<noteq> None"
  by (simp add: sendWebPush_def split: push_outcome.splits option.splits if_splits)

lemma sendEmail_failure:
  "\<not> success (sendEmail e a i) \<Longrightarrow> failure (sendEmail e a i) \<noteq> None"
  by (simp add: sendEmail_def split: if_splits)

lemma made_send:
  "made (sendReminderNotification e r (Some u) d) = calls (emailStep e (pushStep e (start r u d)))"
  by (simp add: sendReminderNotification_def start_def Let_def split: option.splits sum.splits)

lemma pushStep_calls:
  "calls (pushStep e s) =
     calls s @ (if pushEnabled (owner s)
                then [WebPushCall (rid (doc s)) (pushSubscription (owner s))
                        (if priority (doc s) = Urgent then HighUrgency else NormalUrgency)]
                else [])"
  by (simp add: pushStep_def Let_def split: option.splits)

lemma pushStep_res:
  "res (pushStep e (start r u d)) =
     \<lparr>rwebPush = (case pushAttempt e r u of
                    None \<Rightarrow> \<lparr>rsent = False, rerror = None\<rparr>
                  | Some pr \<Rightarrow> if success pr then \<lparr>rsent = True, rerror = None\<rparr>
                               else \<lparr>rsent = False, rerror = recordedPushError e u pr\<rparr>),
      remail = \<lparr>rsent = False, rerror = None\<rparr>\<rparr>"
  by (simp add: pushStep_def Let_def start_def initialResults_def pushAttempt_def
      recordedPushError_def split: option.splits)

lemma pushStep_rsent:
  "rsent (rwebPush (res (pushStep e (start r u d)))) = pushSucceeded e r u"
  by (simp add: pushStep_res pushSucceeded_def split: option.splits)

lemma pushStep_owner:
  "owner (pushStep e (start r u d)) =
     (case pushAttempt e r u of
        None \<Rightarrow> u
      | Some pr \<Rightarrow> if failure pr = Some ''subscription_invalid'' \<and> \<not> success pr
                   then u\<lparr>pushSubscription := None\<rparr> else u)"
  by (simp add: pushStep_def Let_def start_def pushAttempt_def split: option.splits)

lemma pushStep_owner_flags:
  "pushEnabled (owner (pushStep e s)) = pushEnabled (owner s) \<and>
   emailEnabled (owner (pushStep e s)) = emailEnabled (owner s) \<and>
   emailFallback (owner (pushStep e s)) = emailFallback (owner s) \<and>
   address (owner (pushStep e s)) = address (owner s) \<and>
   uid (owner (pushStep e s)) = uid (owner s)"
  by (simp add: pushStep_def Let_def split: option.splits)

lemma pushStep_store:
  "store (pushStep e (start r u d)) =
     (case pushAttempt e r u of
        None \<Rightarrow> d
      | Some pr \<Rightarrow>
          if failure pr = Some ''subscription_invalid'' \<and> \<not> success pr \<and>
             dbFails e (SaveUser (uid u)) = None
          then d\<lparr>users := (users d)(uid u :=
                   map_option (\<lambda>x. x\<lparr>pushSubscription := None\<rparr>) (users d (uid u)))\<rparr>
          else d)"
  by (simp add: pushStep_def Let_def start_def pushAttempt_def split: option.splits)

lemma pushStep_doc:
  "doc (pushStep e (start r u d)) =
     (case pushAttempt e r u of
        None \<Rightarrow> r
      | Some pr \<Rightarrow>
          if success pr
          then setWebPush (\<lambda>c. c\<lparr>sent := True, sentAt := Some (clock e (PushSent (rid r)))\<rparr>) r
          else setWebPush (\<lambda>c. c\<lparr>error := recordedPushError e u pr\<rparr>) r)"
  by (simp add: pushStep_def Let_def start_def pushAttempt_def recordedPushError_def
      split: option.splits)

lemma pushStep_rid: "rid (doc (pushStep e s)) = rid (doc s)"
  by (simp add: pushStep_def Let_def setWebPush_def split: option.splits)

lemma emailStep_calls:
  "calls (emailStep e s) =
     calls s @ (if shouldSendEmail (owner s) (res s) \<and> address (owner s) \<noteq> []
                then [EmailCall (rid (doc s)) (address (owner s))] else [])"
  by (simp add: emailStep_def Let_def)

lemma emailStep_owner_store:
  "owner (emailStep e s) = owner s \<and> store (emailStep e s) = store s"
  by (simp add: emailStep_def Let_def)

lemma emailStep_rid: "rid (doc (emailStep e s)) = rid (doc s)"
  by (simp add: emailStep_def Let_def setEmail_def)

lemma should_after_push:
  "(shouldSendEmail (owner (pushStep e (start r u d))) (res (pushStep e (start r u d))) \<and>
    address (owner (pushStep e (start r u d))) \<noteq> []) = (emailAttempt e r u \<noteq> None)"
  by (simp add: shouldSendEmail_def pushStep_rsent pushStep_owner_flags emailAttempt_def)
     (simp add: start_def)

lemma emailStep_pushStep:
  "emailStep e (pushStep e (start r u d)) =
     (let s = pushStep e (start r u d)
      in case emailAttempt e r u of
           None \<Rightarrow> s
         | Some er \<Rightarrow>
             if success er
             then s\<lparr>calls := calls s @ [EmailCall (rid r) (address u)],
                    res := (res s)\<lparr>remail := (remail (res s))\<lparr>rsent := True\<rparr>\<rparr>,
                    doc := setEmail (\<lambda>c. c\<lparr>sent := True,
                             sentAt := Some (clock e (EmailSent (rid r)))\<rparr>) (doc s)\<rparr>
             else s\<lparr>calls := calls s @ [EmailCall (rid r) (address u)],
                    res := (res s)\<lparr>remail := (remail (res s))\<lparr>rerror := failure er\<rparr>\<rparr>,
                    doc := setEmail (\<lambda>c. c\<lparr>error := failure er\<rparr>) (doc s)\<rparr>)"
proof (cases "emailAttempt e r u")
  case None
  have h: "(shouldSendEmail (owner (pushStep e (start r u d))) (res (pushStep e (start r u d))) \<and>
    address (owner (pushStep e (start r u d))) \<noteq> []) = False"
    unfolding should_after_push using None by simp
  show ?thesis
    unfolding emailStep_def Let_def h by (simp add: None)
next
  case (Some er)
  then have er: "er = sendEmail e (address u) (rid r)"
    by (simp add: emailAttempt_def split: if_splits)
  have a: "address (owner (pushStep e (start r u d))) = address u"
    "rid (doc (pushStep e (start r u d))) = rid r"
    by (simp_all add: pushStep_owner_flags pushStep_rid) (simp_all add: start_def)
  have h: "(shouldSendEmail (owner (pushStep e (start r u d))) (res (pushStep e (start r u d))) \<and>
    address (owner (pushStep e (start r u d))) \<noteq> []) = True"
    unfolding should_after_push using Some by simp
  show ?thesis
    unfolding emailStep_def Let_def h by (simp add: Some er a)
qed

lemma saveReminder_found:
  "find (\<lambda>x. rid x = rid r) (reminders d) = Some y \<Longrightarrow>
   saveReminder now r d =
     Inr (if y = r then (r, d)
          else (r\<lparr>updatedAt := now\<rparr>,
                d\<lparr>reminders := map (\<lambda>z. if rid z = rid r then r\<lparr>updatedAt := now\<rparr> else z)
                                  (reminders d)\<rparr>))"
  by (simp add: saveReminder_def Let_def)

lemma delivery_store_reminders:
  "reminders (store (emailStep e (pushStep e (start r u d)))) = reminders d"
  by (simp add: emailStep_owner_store pushStep_store split: option.splits)

lemma delivery_rid: "rid (doc (emailStep e (pushStep e (start r u d)))) = rid r"
  by (simp add: emailStep_rid pushStep_rid) (simp add: start_def)

lemma send_outcome:
  assumes "dbFails e (SaveDelivery (rid r)) = None"
    and "find (\<lambda>x. rid x = rid r) (reminders d) = Some y"
  shows "outcome (sendReminderNotification e r (Some u) d) =
           Inr (res (emailStep e (pushStep e (start r u d))))"
proof -
  let ?s = "emailStep e (pushStep e (start r u d))"
  have "find (\<lambda>x. rid x = rid (doc ?s)) (reminders (store ?s)) = Some y"
    using assms(2) by (simp add: delivery_store_reminders delivery_rid)
  from saveReminder_found [OF this] obtain p
    where "saveReminder (clock e (DeliverySaved (rid r))) (doc ?s) (store ?s) = Inr p"
    by blast
  then show ?thesis
    using assms(1)
    by (simp add: sendReminderNotification_def Let_def start_def split: prod.splits)
qed

lemma notifications_setWebPush:
  "webPush (notifications (setWebPush f r)) = f (webPush (notifications r)) \<and>
   email (notifications (setWebPush f r)) = email (notifications r)"
  by (simp add: setWebPush_def)

lemma notifications_setEmail:
  "email (notifications (setEmail f r)) = f (email (notifications r)) \<and>
   webPush (notifications (setEmail f r)) = webPush (notifications r)"
  by (simp add: setEmail_def)

lemma reminderDoc_notifications:
  "notifications (reminderDoc (sendReminderNotification e r (Some u) d)) =
   notifications (doc (emailStep e (pushStep e (start r u d))))"
  by (auto simp: sendReminderNotification_def Let_def start_def saveReminder_def
      split: option.splits sum.splits if_splits)

lemma find_replaced:
  "find (\<lambda>y. rid y = i) xs = Some y \<Longrightarrow> rid r' = i \<Longrightarrow>
   find (\<lambda>y. rid y = i) (map (\<lambda>z. if rid z = i then r' else z) xs) = Some r'"
  by (induction xs) (auto split: if_splits)

lemma saveReminder_stored:
  "saveReminder now r d = Inr (r', d') \<Longrightarrow>
   find (\<lambda>y. rid y = rid r) (reminders d') = Some r' \<and> users d' = users d \<and>
   notifications r' = notifications r \<and> rid r' = rid r"
  by (auto simp: saveReminder_def Let_def find_replaced split: option.splits if_splits)

lemma send_persisted:
  "case outcome (sendReminderNotification e r (Some u) d) of
     Inl msg \<Rightarrow> True
   | Inr rs \<Rightarrow>
       find (\<lambda>y. rid y = rid r) (reminders (dbAfter (sendReminderNotification e r (Some u) d))) =
         Some (reminderDoc (sendReminderNotification e r (Some u) d))"
proof -
  let ?s = "emailStep e (pushStep e (start r u d))"
  show ?thesis
  proof (cases "dbFails e (SaveDelivery (rid r))")
    case (Some msg)
    then show ?thesis
      by (simp add: sendReminderNotification_def Let_def)
  next
    case None
    show ?thesis
    proof (cases "saveReminder (clock e (DeliverySaved (rid r))) (doc ?s) (store ?s)")
      case (Inl msg)
      then show ?thesis
        using None by (simp add: sendReminderNotification_def Let_def start_def)
    next
      case (Inr p)
      obtain r' d' where p: "p = (r', d')" by (cases p)
      have "find (\<lambda>y. rid y = rid r) (reminders d') = Some r'"
        using saveReminder_stored [OF Inr [unfolded p]] by (simp add: delivery_rid)
      then show ?thesis
        using None Inr p by (simp add: sendReminderNotification_def Let_def start_def)
    qed
  qed
qed

lemma send_users:
  "users (dbAfter (sendReminderNotification e r (Some u) d)) =
   users (store (pushStep e (start r u d)))"
proof -
  let ?s = "emailStep e (pushStep e (start r u d))"
  have a: "store ?s = store (pushStep e (start r u d))"
    by (simp add: emailStep_owner_store)
  show ?thesis
  proof (cases "dbFails e (SaveDelivery (rid r))")
    case (Some msg)
    then show ?thesis
      using a by (simp add: sendReminderNotification_def Let_def start_def)
  next
    case None
    show ?thesis
    proof (cases "saveReminder (clock e (DeliverySaved (rid r))) (doc ?s) (store ?s)")
      case (Inl msg)
      then show ?thesis
        using None a by (simp add: sendReminderNotification_def Let_def start_def)
    next
      case (Inr p)
      obtain r' d' where p: "p = (r', d')" by (cases p)
      have "users d' = users (store ?s)"
        using saveReminder_stored [OF Inr [unfolded p]] by simp
      then show ?thesis
        using None Inr p a by (simp add: sendReminderNotification_def Let_def start_def)
    qed
  qed
qed

lemma send_userDoc:
  "userDoc (sendReminderNotification e r (Some u) d) = Some (owner (pushStep e (start r u d)))"
  by (simp add: sendReminderNotification_def Let_def start_def emailStep_owner_store
      split: option.splits sum.splits prod.splits)

lemma push_calls:
  "filter isWebPushCall (made (sendReminderNotification e r (Some u) d)) =
     (if pushEnabled u
      then [WebPushCall (rid r) (pushSubscription u)
              (if priority r = Urgent then HighUrgency else NormalUrgency)]
      else [])"
proof -
  have a: "calls (emailStep e (pushStep e (start r u d))) =
           calls (pushStep e (start r u d)) @
             (case emailAttempt e r u of None \<Rightarrow> [] | Some er \<Rightarrow> [EmailCall (rid r) (address u)])"
    by (simp add: emailStep_pushStep Let_def split: option.splits)
  show ?thesis
    unfolding made_send a
    by (simp add: pushStep_calls start_def split: option.splits)
qed

lemma no_user_no_calls: "made (sendReminderNotification e r None d) = []"
  by (simp add: sendReminderNotification_def)

lemma push_record:
  "webPush (notifications (reminderDoc (sendReminderNotification e r (Some u) d))) =
     (case pushAttempt e r u of
        None \<Rightarrow> webPush (notifications r)
      | Some pr \<Rightarrow>
          if success pr
          then (webPush (notifications r))\<lparr>sent := True,
                                            sentAt := Some (clock e (PushSent (rid r)))\<rparr>
          else (webPush (notifications r))\<lparr>error := recordedPushError e u pr\<rparr>)"
  by (simp add: reminderDoc_notifications emailStep_pushStep Let_def pushStep_doc
      notifications_setWebPush notifications_setEmail split: option.splits)

lemma email_record:
  "email (notifications (reminderDoc (sendReminderNotification e r (Some u) d))) =
     (case emailAttempt e r u of
        None \<Rightarrow> email (notifications r)
      | Some er \<Rightarrow>
          if success er
          then (email (notifications r))\<lparr>sent := True,
                                          sentAt := Some (clock e (EmailSent (rid r)))\<rparr>
          else (email (notifications r))\<lparr>error := failure er\<rparr>)"
  by (simp add: reminderDoc_notifications emailStep_pushStep Let_def pushStep_doc
      notifications_setWebPush notifications_setEmail split: option.splits)

lemma exEnv_push: "pushAttempt exEnv r exUser = Some \<lparr>success = True, failure = None\<rparr>"
  by (simp add: pushAttempt_def exEnv_def exUser_def sendWebPush_def)

text \<open>A delivery changes neither the id, the status nor the metadata of the reminder.\<close>

lemma core_setWebPush: "core (setWebPush f r) = core r"
  by (simp add: core_def setWebPush_def)

lemma core_setEmail: "core (setEmail f r) = core r"
  by (simp add: core_def setEmail_def)

lemma core_delivery: "core (doc (emailStep e (pushStep e (start r u d)))) = core r"
  by (simp add: emailStep_pushStep Let_def pushStep_doc core_setWebPush core_setEmail
      split: option.splits)

lemma saveReminder_core:
  "saveReminder now r d = Inr (r', d') \<Longrightarrow>
   core r' = core r \<and> map rid (reminders d') = map rid (reminders d)"
  by (auto simp: saveReminder_def Let_def core_def split: option.splits if_splits)

lemma send_core: "core (reminderDoc (sendReminderNotification e r usr d)) = core r"
proof (cases usr)
  case None
  then show ?thesis by (simp add: sendReminderNotification_def)
next
  case (Some u)
  let ?s = "emailStep e (pushStep e (start r u d))"
  show ?thesis
  proof (cases "dbFails e (SaveDelivery (rid r))")
    case (Some msg)
    then show ?thesis
      using \<open>usr = Some u\<close> core_delivery [of e r u d]
      by (simp add: sendReminderNotification_def Let_def start_def)
  next
    case None
    show ?thesis
    proof (cases "saveReminder (clock e (DeliverySaved (rid r))) (doc ?s) (store ?s)")
      case (Inl msg)
      then show ?thesis
        using None \<open>usr = Some u\<close> core_delivery [of e r u d]
        by (simp add: sendReminderNotification_def Let_def start_def)
    next
      case (Inr p)
      obtain r' d' where p: "p = (r', d')" by (cases p)
      have "core r' = core r"
        using saveReminder_core [OF Inr [unfolded p]] core_delivery [of e r u d] by simp
      then show ?thesis
        using None Inr p \<open>usr = Some u\<close>
        by (simp add: sendReminderNotification_def Let_def start_def)
    qed
  qed
qed

lemma priority_delivery: "priority (doc (emailStep e (pushStep e (start r u d)))) = priority r"
  by (simp add: emailStep_pushStep Let_def pushStep_doc setWebPush_def setEmail_def
      split: option.splits)

lemma saveReminder_priority:
  "saveReminder now r d = Inr (r', d') \<Longrightarrow> priority r' = priority r"
  by (auto simp: saveReminder_def Let_def split: option.splits if_splits)

lemma send_priority: "priority (reminderDoc (sendReminderNotification e r usr d)) = priority r"
proof (cases usr)
  case None
  then show ?thesis by (simp add: sendReminderNotification_def)
next
  case (Some u)
  let ?s = "emailStep e (pushStep e (start r u d))"
  show ?thesis
  proof (cases "dbFails e (SaveDelivery (rid r))")
    case (Some msg)
    then show ?thesis
      using \<open>usr = Some u\<close> priority_delivery [of e r u d]
      by (simp add: sendReminderNotification_def Let_def start_def)
  next
    case None
    show ?thesis
    proof (cases "saveReminder (clock e (DeliverySaved (rid r))) (doc ?s) (store ?s)")
      case (Inl msg)
      then show ?thesis
        using None \<open>usr = Some u\<close> priority_delivery [of e r u d]
        by (simp add: sendReminderNotification_def Let_def start_def)
    next
      case (Inr p)
      obtain r' d' where p: "p = (r', d')" by (cases p)
      have "priority r' = priority r"
        using saveReminder_priority [OF Inr [unfolded p]] priority_delivery [of e r u d] by simp
      then show ?thesis
        using None Inr p \<open>usr = Some u\<close>
        by (simp add: sendReminderNotification_def Let_def start_def)
    qed
  qed
qed

section \<open>The email decision\<close>

text \<open>
  C2, as the code has it. The delivery of a due reminder to its user calls the email
  adapter if and only if \<open>user.email.enabled\<close> holds, and (\<open>user.email.fallback\<close> holds and the
  push did not succeed, or the push channel is disabled for the user), and the user has a
  non-empty email address; and then it calls it exactly once. In particular no email is
  attempted when the push is enabled and succeeds.
\<close>

theorem email_attempt_rule:
  "filter isEmailCall (made (sendReminderNotification e r (Some u) d)) =
     (if emailEnabled u \<and> (emailFallback u \<and> \<not> pushSucceeded e r u \<or> \<not> pushEnabled u) \<and>
         address u \<noteq> []
      then [EmailCall (rid r) (address u)] else [])"
proof -
  have b: "filter isEmailCall (calls (pushStep e (start r u d))) = []"
    by (simp add: pushStep_calls start_def split: option.splits)
  show ?thesis
    by (simp add: made_send emailStep_pushStep Let_def b emailAttempt_def)
qed

text \<open>
  The rule as the specification words it, (enabled and fallback and push not succeeded) or
  (push disabled), fails for a user who has disabled both channels: the second disjunct
  holds and no email is attempted.
\<close>

theorem email_rule_counterexample:
  "\<not> ((filter isEmailCall
         (made (sendReminderNotification exEnv exReminder
                  (Some (exUser\<lparr>pushEnabled := False, emailEnabled := False\<rparr>)) exDb)) \<noteq> []) =
       (emailEnabled (exUser\<lparr>pushEnabled := False, emailEnabled := False\<rparr>) \<and>
        emailFallback (exUser\<lparr>pushEnabled := False, emailEnabled := False\<rparr>) \<and>
        \<not> pushSucceeded exEnv exReminder (exUser\<lparr>pushEnabled := False, emailEnabled := False\<rparr>) \<or>
        \<not> pushEnabled (exUser\<lparr>pushEnabled := False, emailEnabled := False\<rparr>)))"
  by (simp add: made_send emailStep_pushStep Let_def emailAttempt_def)
     (simp add: pushStep_calls start_def)

section \<open>The delivery records\<close>

text \<open>
  C3, as the code has it. For each channel (web push, email) of a delivered reminder: a
  successful send sets the channel's record to \<open>sent = true\<close> with \<open>sentAt\<close> the time of
  the send, and leaves \<open>error\<close> as it was; a failed send writes the failure reason to
  \<open>error\<close> and leaves \<open>sent\<close> and \<open>sentAt\<close> as they were; a channel that is not attempted
  keeps its record (the push is attempted for every user who has the channel enabled).
  Each record depends on the answer of its own channel only. When the delivery returns,
  the stored reminder is the document with these records.
\<close>

theorem delivery_records:
  "webPush (notifications (reminderDoc (sendReminderNotification e r (Some u) d))) =
     (case pushAttempt e r u of
        None \<Rightarrow> webPush (notifications r)
      | Some pr \<Rightarrow>
          if success pr
          then (webPush (notifications r))\<lparr>sent := True,
                                            sentAt := Some (clock e (PushSent (rid r)))\<rparr>
          else (webPush (notifications r))\<lparr>error := recordedPushError e u pr\<rparr>) \<and>
   email (notifications (reminderDoc (sendReminderNotification e r (Some u) d))) =
     (case emailAttempt e r u of
        None \<Rightarrow> email (notifications r)
      | Some er \<Rightarrow>
          if success er
          then (email (notifications r))\<lparr>sent := True,
                                          sentAt := Some (clock e (EmailSent (rid r)))\<rparr>
          else (email (notifications r))\<lparr>error := failure er\<rparr>) \<and>
   (case outcome (sendReminderNotification e r (Some u) d) of
      Inl msg \<Rightarrow> True
    | Inr rs \<Rightarrow>
        find (\<lambda>y. rid y = rid r) (reminders (dbAfter (sendReminderNotification e r (Some u) d))) =
          Some (reminderDoc (sendReminderNotification e r (Some u) d)))"
proof (intro conjI)
  show "webPush (notifications (reminderDoc (sendReminderNotification e r (Some u) d))) =
     (case pushAttempt e r u of
        None \<Rightarrow> webPush (notifications r)
      | Some pr \<Rightarrow>
          if success pr
          then (webPush (notifications r))\<lparr>sent := True,
                                            sentAt := Some (clock e (PushSent (rid r)))\<rparr>
          else (webPush (notifications r))\<lparr>error := recordedPushError e u pr\<rparr>)"
    by (rule push_record)
  show "email (notifications (reminderDoc (sendReminderNotification e r (Some u) d))) =
     (case emailAttempt e r u of
        None \<Rightarrow> email (notifications r)
      | Some er \<Rightarrow>
          if success er
          then (email (notifications r))\<lparr>sent := True,
                                          sentAt := Some (clock e (EmailSent (rid r)))\<rparr>
          else (email (notifications r))\<lparr>error := failure er\<rparr>)"
    by (rule email_record)
  show "case outcome (sendReminderNotification e r (Some u) d) of
      Inl msg \<Rightarrow> True
    | Inr rs \<Rightarrow>
        find (\<lambda>y. rid y = rid r) (reminders (dbAfter (sendReminderNotification e r (Some u) d))) =
          Some (reminderDoc (sendReminderNotification e r (Some u) d))"
    by (rule send_persisted)
qed

text \<open>
  A successful send does not clear \<open>error\<close>: after a push that failed in an earlier cycle,
  a push that succeeds leaves \<open>sent = true\<close> beside the old error.
\<close>

theorem error_cleared_counterexample:
  "pushSucceeded exEnv exFailed exUser \<and>
   sent (webPush (notifications (reminderDoc
     (sendReminderNotification exEnv exFailed (Some exUser) (exDb\<lparr>reminders := [exFailed]\<rparr>))))) \<and>
   error (webPush (notifications (reminderDoc
     (sendReminderNotification exEnv exFailed (Some exUser) (exDb\<lparr>reminders := [exFailed]\<rparr>)))))
     = Some ''push_failed''"
  by (simp add: push_record pushSucceeded_def exEnv_push)
     (simp add: exFailed_def setWebPush_def)

section \<open>Subscriptions that are gone\<close>

text \<open>
  What holds of a refused push: status 404 or 410 is classified as
  \<open>subscription_invalid\<close> and, the save of the user succeeding, the stored subscription is
  cleared; every other refusal is recorded as \<open>push_failed\<close> on the reminder, and the user
  stays as stored.
\<close>

lemma refused_push:
  fixes e :: env and r :: reminder and u :: account and d :: db
  defines "x \<equiv> sendReminderNotification e r (Some u) d"
  assumes "pushEnabled u" and "pushSubscription u = Some sub"
    and "sendNotification e sub (rid r) = Refused code"
  shows
    "(code = Some 404 \<or> code = Some 410 \<longrightarrow>
        sendWebPush e (Some sub) (rid r) =
          \<lparr>success = False, failure = Some ''subscription_invalid''\<rparr> \<and>
        (dbFails e (SaveUser (uid u)) = None \<longrightarrow>
           error (webPush (notifications (reminderDoc x))) = Some ''subscription_invalid'' \<and>
           userDoc x = Some (u\<lparr>pushSubscription := None\<rparr>) \<and>
           users (dbAfter x) (uid u) =
             map_option (\<lambda>a. a\<lparr>pushSubscription := None\<rparr>) (users d (uid u)))) \<and>
     (code \<noteq> Some 404 \<and> code \<noteq> Some 410 \<longrightarrow>
        sendWebPush e (Some sub) (rid r) = \<lparr>success = False, failure = Some ''push_failed''\<rparr> \<and>
        error (webPush (notifications (reminderDoc x))) = Some ''push_failed'' \<and>
        userDoc x = Some u \<and> users (dbAfter x) = users d)"
proof -
  have att: "pushAttempt e r u = Some (sendWebPush e (Some sub) (rid r))"
    using assms by (simp add: pushAttempt_def)
  have gone: "sendWebPush e (Some sub) (rid r) =
      \<lparr>success = False, failure = Some ''subscription_invalid''\<rparr>"
    if "code = Some 404 \<or> code = Some 410"
    using that assms by (auto simp: sendWebPush_def)
  have other: "sendWebPush e (Some sub) (rid r) = \<lparr>success = False, failure = Some ''push_failed''\<rparr>"
    if "code \<noteq> Some 404 \<and> code \<noteq> Some 410"
    using that assms by (auto simp: sendWebPush_def)
  show ?thesis
    by (auto simp: x_def gone other push_record att recordedPushError_def send_userDoc
        pushStep_owner send_users pushStep_store)
qed

text \<open>
  A user who has the push channel enabled gets a push call in every delivery, whatever is
  stored as the subscription; with nothing stored the call fails and \<open>push_failed\<close> is
  recorded.
\<close>

lemma enabled_push_attempted:
  "pushEnabled u \<Longrightarrow>
   filter isWebPushCall (made (sendReminderNotification e r (Some u) d)) =
     [WebPushCall (rid r) (pushSubscription u)
        (if priority r = Urgent then HighUrgency else NormalUrgency)]"
  by (simp add: push_calls)

lemma unsubscribed_push_fails:
  "pushEnabled u \<Longrightarrow> pushSubscription u = None \<Longrightarrow>
   pushAttempt e r u = Some \<lparr>success = False, failure = Some ''push_failed''\<rparr> \<and>
   error (webPush (notifications (reminderDoc (sendReminderNotification e r (Some u) d)))) =
     Some ''push_failed''"
  by (simp add: push_record pushAttempt_def sendWebPush_def recordedPushError_def)

lemma exAfterGone_user:
  "users (dbAfter exAfterGone) 7 = Some (exUser\<lparr>pushSubscription := None\<rparr>) \<and>
   error (webPush (notifications (reminderDoc exAfterGone))) = Some ''subscription_invalid'' \<and>
   priority (reminderDoc exAfterGone) = Medium \<and> rid (reminderDoc exAfterGone) = 1"
proof -
  have a: "pushEnabled exUser" "pushSubscription exUser = Some exSubscription" "uid exUser = 7"
    "users exDb 7 = Some exUser"
    by (simp_all add: exUser_def exDb_def)
  have b: "sendNotification exGone exSubscription (rid exReminder) = Refused (Some 410)"
    "dbFails exGone (SaveUser 7) = None"
    by (simp_all add: exGone_def exEnv_def)
  have c: "core (reminderDoc exAfterGone) = core exReminder"
    unfolding exAfterGone_def by (rule send_core)
  have d: "priority (reminderDoc exAfterGone) = Medium"
    unfolding exAfterGone_def send_priority by (simp add: exReminder_def)
  show ?thesis
    using refused_push [OF a(1,2) b(1), where d = exDb] c d
    by (simp add: a b exAfterGone_def core_def) (simp add: exReminder_def)
qed

text \<open>
  C4. The claim says that after a push rejected as gone (404 or 410) the stored
  subscription is cleared, so that a later delivery cycle does not attempt push for the
  user until a new subscription is stored. The first part holds: after the 410 the
  failure is recorded as \<open>subscription_invalid\<close> and the stored user has no subscription.
  The second does not: the guard of the push attempt reads the nested path, which is an
  object still, so the next delivery calls the push adapter again, with a subscription
  that has no endpoint, and records \<open>push_failed\<close>.
\<close>

theorem cleared_subscription_still_pushed:
  "error (webPush (notifications (reminderDoc exAfterGone))) = Some ''subscription_invalid'' \<and>
   users (dbAfter exAfterGone) 7 = Some (exUser\<lparr>pushSubscription := None\<rparr>) \<and>
   filter isWebPushCall (made exNextCycle) = [WebPushCall 1 None NormalUrgency] \<and>
   error (webPush (notifications (reminderDoc exNextCycle))) = Some ''push_failed''"
proof -
  let ?u = "exUser\<lparr>pushSubscription := None\<rparr>"
  have u: "pushEnabled ?u" "pushSubscription ?u = None"
    by (simp_all add: exUser_def)
  have n: "exNextCycle =
      sendReminderNotification exEnv (reminderDoc exAfterGone) (Some ?u) (dbAfter exAfterGone)"
    by (simp add: exNextCycle_def populate_def exAfterGone_user)
  have "filter isWebPushCall (made exNextCycle) = [WebPushCall 1 None NormalUrgency]"
    unfolding n using enabled_push_attempted [OF u(1)] by (simp add: exAfterGone_user)
  moreover have "error (webPush (notifications (reminderDoc exNextCycle))) = Some ''push_failed''"
    unfolding n using unsubscribed_push_fails [OF u] by simp
  ultimately show ?thesis
    by (simp add: exAfterGone_user)
qed

section \<open>Outcomes of a delivery\<close>

lemma delivery_res:
  "res (emailStep e (pushStep e (start r u d))) =
     \<lparr>rwebPush = (case pushAttempt e r u of
                    None \<Rightarrow> \<lparr>rsent = False, rerror = None\<rparr>
                  | Some pr \<Rightarrow> if success pr then \<lparr>rsent = True, rerror = None\<rparr>
                               else \<lparr>rsent = False, rerror = recordedPushError e u pr\<rparr>),
      remail = (case emailAttempt e r u of
                  None \<Rightarrow> \<lparr>rsent = False, rerror = None\<rparr>
                | Some er \<Rightarrow> if success er then \<lparr>rsent = True, rerror = None\<rparr>
                             else \<lparr>rsent = False, rerror = failure er\<rparr>)\<rparr>"
  by (simp add: emailStep_pushStep Let_def pushStep_res split: option.splits)

lemma bulkEntry_consistent: "consistent (bulkEntry r out)"
  by (simp add: consistent_def bulkEntry_def split: sum.splits)

lemma sendBulkLoop_entries:
  "map reminderId (entries (sendBulkLoop e rs b)) = map reminderId (entries b) @ map rid rs"
  by (induction rs arbitrary: b) (simp_all add: Let_def bulkEntry_def split: sum.splits)

lemma sendBulkLoop_consistent:
  "list_all consistent (entries b) \<Longrightarrow> list_all consistent (entries (sendBulkLoop e rs b))"
  by (induction rs arbitrary: b) (simp_all add: Let_def bulkEntry_consistent)

text \<open>
  The bulk sender is a loop over the reminders: the state it has accumulated, followed by
  what a fresh run on the rest produces from the users and the database it has reached.
\<close>

lemma sendBulkNotifications_Cons:
  "sendBulkNotifications e (q # qs) usrs d =
     sendBulkLoop e qs
       \<lparr>entries = [bulkEntry q (outcome (sendReminderNotification e q (usrs (user q)) d))],
        docs = [reminderDoc (sendReminderNotification e q (usrs (user q)) d)],
        loaded = (case userDoc (sendReminderNotification e q (usrs (user q)) d) of
                    None \<Rightarrow> usrs
                  | Some v \<Rightarrow> usrs(user q \<mapsto> v)),
        database = dbAfter (sendReminderNotification e q (usrs (user q)) d),
        trace = made (sendReminderNotification e q (usrs (user q)) d)\<rparr>"
  by (simp add: sendBulkNotifications_def Let_def split: option.splits)

lemma sendBulkNotifications_Nil:
  "sendBulkNotifications e [] usrs d =
     \<lparr>entries = [], docs = [], loaded = usrs, database = d, trace = []\<rparr>"
  by (simp add: sendBulkNotifications_def)

lemma sendBulkLoop_append:
  "sendBulkLoop e rs b =
     \<lparr>entries = entries b @ entries (sendBulkNotifications e rs (loaded b) (database b)),
      docs = docs b @ docs (sendBulkNotifications e rs (loaded b) (database b)),
      loaded = loaded (sendBulkNotifications e rs (loaded b) (database b)),
      database = database (sendBulkNotifications e rs (loaded b) (database b)),
      trace = trace b @ trace (sendBulkNotifications e rs (loaded b) (database b))\<rparr>"
proof (induction rs arbitrary: b)
  case Nil
  show ?case by (simp add: sendBulkNotifications_Nil)
next
  case (Cons r rs)
  show ?case
    by (simp add: sendBulkNotifications_Cons Cons.IH Let_def)
qed

lemma sendBulkNotifications_step:
  fixes e :: env and q :: reminder and qs :: "reminder list"
    and usrs :: "nat \<rightharpoonup> account" and d :: db
  defines "x \<equiv> sendReminderNotification e q (usrs (user q)) d"
  defines "rest \<equiv> sendBulkNotifications e qs
                     (case userDoc x of None \<Rightarrow> usrs | Some v \<Rightarrow> usrs(user q \<mapsto> v)) (dbAfter x)"
  shows "entries (sendBulkNotifications e (q # qs) usrs d) = bulkEntry q (outcome x) # entries rest \<and>
         trace (sendBulkNotifications e (q # qs) usrs d) = made x @ trace rest \<and>
         database (sendBulkNotifications e (q # qs) usrs d) = database rest"
  unfolding sendBulkNotifications_Cons x_def rest_def
  by (subst sendBulkLoop_append, simp)+

text \<open>The two example deliveries through the bulk sender.\<close>

lemma exDown_attempts:
  "pushAttempt exDown exReminder exUser = Some \<lparr>success = False, failure = Some ''push_failed''\<rparr> \<and>
   emailAttempt exDown exReminder exUser = Some \<lparr>success = False, failure = Some ''email_failed''\<rparr>"
proof -
  have p: "pushAttempt exDown exReminder exUser = Some \<lparr>success = False, failure = Some ''push_failed''\<rparr>"
    by (simp add: pushAttempt_def exDown_def exEnv_def exUser_def sendWebPush_def)
  have m: "emailAttempt exDown exReminder exUser = Some \<lparr>success = False, failure = Some ''email_failed''\<rparr>"
    by (simp add: emailAttempt_def pushSucceeded_def p)
       (simp add: exDown_def exEnv_def exUser_def sendEmail_def)
  show ?thesis using p m by simp
qed

lemma exGone_attempts:
  "pushAttempt exGone exReminder exUser =
     Some \<lparr>success = False, failure = Some ''subscription_invalid''\<rparr> \<and>
   emailAttempt exGone exReminder exUser = Some \<lparr>success = True, failure = None\<rparr>"
proof -
  have p: "pushAttempt exGone exReminder exUser =
      Some \<lparr>success = False, failure = Some ''subscription_invalid''\<rparr>"
    by (simp add: pushAttempt_def exGone_def exEnv_def exUser_def sendWebPush_def)
  have m: "emailAttempt exGone exReminder exUser = Some \<lparr>success = True, failure = None\<rparr>"
    by (simp add: emailAttempt_def pushSucceeded_def p)
       (simp add: exGone_def exEnv_def exUser_def sendEmail_def)
  show ?thesis using p m by simp
qed

lemma exDown_made:
  "made (sendReminderNotification exDown exReminder (Some exUser) exDb) =
     [WebPushCall 1 (Some exSubscription) NormalUrgency, EmailCall 1 ''sara@example.com'']"
  by (simp add: sendReminderNotification_def pushStep_def emailStep_def saveReminder_def
      sendWebPush_def sendEmail_def shouldSendEmail_def start_def setWebPush_def setEmail_def
      initialResults_def Let_def exDown_def exEnv_def exDb_def exReminder_def exUser_def
      split: option.splits sum.splits)

text \<open>
  C8. The delivery orchestrator does not raise on a channel's failure. For a reminder of
  the collection and its user, whatever the push and the mail transport answer, the call
  returns (the save of the reminder succeeding, which is storage and no channel): it
  returns both channel outcomes, \<open>sent\<close> for a channel that succeeded and the recorded
  error for one that failed, and a failed channel always has an error recorded. The bulk
  sender reports a reminder successful if and only if at least one channel outcome has
  \<open>sent = true\<close>: its entry for a delivery that returned carries the returned outcomes and
  the disjunction of their \<open>sent\<close> flags, its entry for a delivery that threw carries the
  message and no success. The entries of a bulk run are exactly the entry of the delivery
  of the first reminder, followed by the entries of the bulk run on the rest, from the
  users and the database that the first delivery left; its calls are the calls of the
  first delivery followed by those of the rest. So there is one entry per reminder, in
  order.
\<close>

theorem delivery_never_raises:
  "(dbFails e (SaveDelivery (rid r)) = None \<and> find (\<lambda>y. rid y = rid r) (reminders d) = Some y \<longrightarrow>
      outcome (sendReminderNotification e r (Some u) d) =
        Inr \<lparr>rwebPush = (case pushAttempt e r u of
                           None \<Rightarrow> \<lparr>rsent = False, rerror = None\<rparr>
                         | Some pr \<Rightarrow> if success pr then \<lparr>rsent = True, rerror = None\<rparr>
                                      else \<lparr>rsent = False, rerror = recordedPushError e u pr\<rparr>),
             remail = (case emailAttempt e r u of
                         None \<Rightarrow> \<lparr>rsent = False, rerror = None\<rparr>
                       | Some er \<Rightarrow> if success er then \<lparr>rsent = True, rerror = None\<rparr>
                                    else \<lparr>rsent = False, rerror = failure er\<rparr>)\<rparr> \<and>
      succeeded (bulkEntry r (outcome (sendReminderNotification e r (Some u) d))) =
        (pushSucceeded e r u \<or> emailSucceeded e r u)) \<and>
   (pushAttempt e r u = Some pr \<and> \<not> success pr \<longrightarrow> recordedPushError e u pr \<noteq> None) \<and>
   (emailAttempt e r u = Some er \<and> \<not> success er \<longrightarrow> failure er \<noteq> None) \<and>
   map reminderId (entries (sendBulkNotifications e rs usrs d)) = map rid rs \<and>
   list_all consistent (entries (sendBulkNotifications e rs usrs d)) \<and>
   bulkEntry q (Inr c) =
     \<lparr>reminderId = rid q, succeeded = (rsent (rwebPush c) \<or> rsent (remail c)),
      channels = Some c, thrown = None\<rparr> \<and>
   bulkEntry q (Inl msg) =
     \<lparr>reminderId = rid q, succeeded = False, channels = None, thrown = Some msg\<rparr> \<and>
   sendBulkNotifications e [] usrs d =
     \<lparr>entries = [], docs = [], loaded = usrs, database = d, trace = []\<rparr> \<and>
   (let x = sendReminderNotification e q (usrs (user q)) d;
        rest = sendBulkNotifications e qs
                 (case userDoc x of None \<Rightarrow> usrs | Some v \<Rightarrow> usrs(user q \<mapsto> v)) (dbAfter x)
    in entries (sendBulkNotifications e (q # qs) usrs d) = bulkEntry q (outcome x) # entries rest \<and>
       trace (sendBulkNotifications e (q # qs) usrs d) = made x @ trace rest \<and>
       database (sendBulkNotifications e (q # qs) usrs d) = database rest)"
proof -
  have a: "recordedPushError e u pr \<noteq> None" if "pushAttempt e r u = Some pr" "\<not> success pr"
    using that sendWebPush_failure
    by (auto simp: pushAttempt_def recordedPushError_def split: if_splits option.splits)
  have b: "failure er \<noteq> None" if "emailAttempt e r u = Some er" "\<not> success er"
    using that sendEmail_failure by (auto simp: emailAttempt_def split: if_splits)
  have c: "map reminderId (entries (sendBulkNotifications e rs usrs d)) = map rid rs"
    by (simp add: sendBulkNotifications_def sendBulkLoop_entries)
  have d: "list_all consistent (entries (sendBulkNotifications e rs usrs d))"
    by (simp add: sendBulkNotifications_def sendBulkLoop_consistent)
  have o: "outcome (sendReminderNotification e r (Some u) d) =
      Inr (res (emailStep e (pushStep e (start r u d))))"
    if "dbFails e (SaveDelivery (rid r)) = None" "find (\<lambda>y. rid y = rid r) (reminders d) = Some y"
    using send_outcome [OF that] .
  have s: "succeeded (bulkEntry r (Inr (res (emailStep e (pushStep e (start r u d)))))) =
      (pushSucceeded e r u \<or> emailSucceeded e r u)"
    by (simp add: bulkEntry_def delivery_res pushSucceeded_def emailSucceeded_def
        split: option.splits)
  have f: "bulkEntry q (Inr c) =
      \<lparr>reminderId = rid q, succeeded = (rsent (rwebPush c) \<or> rsent (remail c)),
       channels = Some c, thrown = None\<rparr>"
    "bulkEntry q (Inl msg) =
      \<lparr>reminderId = rid q, succeeded = False, channels = None, thrown = Some msg\<rparr>"
    by (simp_all add: bulkEntry_def)
  have first: "(dbFails e (SaveDelivery (rid r)) = None \<and>
        find (\<lambda>y. rid y = rid r) (reminders d) = Some y \<longrightarrow>
      outcome (sendReminderNotification e r (Some u) d) =
        Inr \<lparr>rwebPush = (case pushAttempt e r u of
                           None \<Rightarrow> \<lparr>rsent = False, rerror = None\<rparr>
                         | Some pr \<Rightarrow> if success pr then \<lparr>rsent = True, rerror = None\<rparr>
                                      else \<lparr>rsent = False, rerror = recordedPushError e u pr\<rparr>),
             remail = (case emailAttempt e r u of
                         None \<Rightarrow> \<lparr>rsent = False, rerror = None\<rparr>
                       | Some er \<Rightarrow> if success er then \<lparr>rsent = True, rerror = None\<rparr>
                                    else \<lparr>rsent = False, rerror = failure er\<rparr>)\<rparr> \<and>
      succeeded (bulkEntry r (outcome (sendReminderNotification e r (Some u) d))) =
        (pushSucceeded e r u \<or> emailSucceeded e r u))"
    using o s by (simp add: delivery_res)
  show ?thesis
    unfolding Let_def
    using first a b c d f sendBulkNotifications_Nil [of e usrs d]
      sendBulkNotifications_step [of e q qs usrs d]
    by blast
qed

theorem delivery_never_raises_witness:
  "dbFails exDown (SaveDelivery (rid exReminder)) = None \<and>
   find (\<lambda>y. rid y = rid exReminder) (reminders exDb) = Some exReminder \<and>
   outcome (sendReminderNotification exDown exReminder (Some exUser) exDb) =
     Inr \<lparr>rwebPush = \<lparr>rsent = False, rerror = Some ''push_failed''\<rparr>,
          remail = \<lparr>rsent = False, rerror = Some ''email_failed''\<rparr>\<rparr> \<and>
   \<not> succeeded (bulkEntry exReminder
        (outcome (sendReminderNotification exDown exReminder (Some exUser) exDb))) \<and>
   pushAttempt exDown exReminder exUser = Some \<lparr>success = False, failure = Some ''push_failed''\<rparr> \<and>
   emailAttempt exDown exReminder exUser = Some \<lparr>success = False, failure = Some ''email_failed''\<rparr> \<and>
   entries (sendBulkNotifications exDown [exReminder] (populate exDb) exDb) =
     [\<lparr>reminderId = 1, succeeded = False,
       channels = Some \<lparr>rwebPush = \<lparr>rsent = False, rerror = Some ''push_failed''\<rparr>,
                        remail = \<lparr>rsent = False, rerror = Some ''email_failed''\<rparr>\<rparr>,
       thrown = None\<rparr>] \<and>
   trace (sendBulkNotifications exDown [exReminder] (populate exDb) exDb) =
     [WebPushCall 1 (Some exSubscription) NormalUrgency, EmailCall 1 ''sara@example.com'']"
proof -
  note p = exDown_attempts [THEN conjunct1]
  note m = exDown_attempts [THEN conjunct2]
  have h: "dbFails exDown (SaveDelivery (rid exReminder)) = None"
    "find (\<lambda>y. rid y = rid exReminder) (reminders exDb) = Some exReminder"
    by (simp_all add: exDown_def exEnv_def exDb_def)
  have g: "populate exDb (user exReminder) = Some exUser" "rid exReminder = 1"
    "dbFails exDown (SaveDelivery (Suc 0)) = None"
    "find (\<lambda>y. rid y = Suc 0) (reminders exDb) = Some exReminder"
    by (simp_all add: populate_def exDb_def exReminder_def exDown_def exEnv_def)
  show ?thesis
    using delivery_never_raises [where e = exDown and r = exReminder and u = exUser and d = exDb
        and y = exReminder and pr = "\<lparr>success = False, failure = Some ''push_failed''\<rparr>"
        and er = "\<lparr>success = False, failure = Some ''email_failed''\<rparr>"
        and rs = "[exReminder]" and usrs = "populate exDb" and q = exReminder and qs = "[]"
        and c = "\<lparr>rwebPush = \<lparr>rsent = False, rerror = Some ''push_failed''\<rparr>,
                  remail = \<lparr>rsent = False, rerror = Some ''email_failed''\<rparr>\<rparr>"
        and msg = "''save failed''"]
    by (simp add: h p m g pushSucceeded_def emailSucceeded_def recordedPushError_def
        exDown_made sendBulkNotifications_Nil Let_def)
qed

text \<open>
  The same reminder where the endpoint is gone and the mail goes out: the push channel
  fails, the email channel succeeds, and the bulk sender reports the reminder successful.
\<close>

lemma bulk_reports_success:
  "entries (sendBulkNotifications exGone [exReminder] (populate exDb) exDb) =
     [\<lparr>reminderId = 1, succeeded = True,
       channels = Some \<lparr>rwebPush = \<lparr>rsent = False, rerror = Some ''subscription_invalid''\<rparr>,
                        remail = \<lparr>rsent = True, rerror = None\<rparr>\<rparr>,
       thrown = None\<rparr>]"
proof -
  have h: "dbFails exGone (SaveDelivery (rid exReminder)) = None"
    "find (\<lambda>y. rid y = rid exReminder) (reminders exDb) = Some exReminder"
    by (simp_all add: exGone_def exEnv_def exDb_def)
  have g: "populate exDb (user exReminder) = Some exUser" "rid exReminder = 1"
    "dbFails exGone (SaveUser (uid exUser)) = None"
    by (simp_all add: populate_def exDb_def exReminder_def exGone_def exEnv_def)
  have o: "outcome (sendReminderNotification exGone exReminder (Some exUser) exDb) =
      Inr \<lparr>rwebPush = \<lparr>rsent = False, rerror = Some ''subscription_invalid''\<rparr>,
           remail = \<lparr>rsent = True, rerror = None\<rparr>\<rparr>"
    using send_outcome [OF h]
    by (simp add: delivery_res exGone_attempts recordedPushError_def g)
  show ?thesis
    using sendBulkNotifications_step [of exGone exReminder "[]" "populate exDb" exDb]
    by (simp add: g o bulkEntry_def sendBulkNotifications_Nil)
qed

section \<open>The next occurrence\<close>

text \<open>
  Daily and weekly series advance by whole days; the only way to end a series is its
  \<open>endDate\<close>.
\<close>

lemma generateNextOccurrence_daily:
  "rtype (recurrence r) = Daily \<Longrightarrow>
   generateNextOccurrence tza r =
     (let nxt = scheduledTime r + interval (recurrence r) * msPerDay
      in case endDate (recurrence r) of
           Some e \<Rightarrow> if nxt > e then None else Some nxt
         | None \<Rightarrow> Some nxt)"
  by (simp add: generateNextOccurrence_def setDate_getDate Let_def)

lemma generateNextOccurrence_weekly:
  "rtype (recurrence r) = Weekly \<Longrightarrow>
   generateNextOccurrence tza r =
     (let nxt = scheduledTime r + 7 * interval (recurrence r) * msPerDay
      in case endDate (recurrence r) of
           Some e \<Rightarrow> if nxt > e then None else Some nxt
         | None \<Rightarrow> Some nxt)"
  by (simp add: generateNextOccurrence_def setDate_getDate Let_def)

lemma generateNextOccurrence_maxOccurrences:
  "generateNextOccurrence tza (r\<lparr>recurrence := (recurrence r)\<lparr>maxOccurrences := m\<rparr>\<rparr>)
   = generateNextOccurrence tza r"
  by (simp add: generateNextOccurrence_def)

text \<open>
  C1. The claim says that no next instant is returned once the series has emitted
  \<open>maxOccurrences\<close> instances, so that a daily series with \<open>maxOccurrences = 3\<close> has no
  fourth occurrence. The code does not read \<open>maxOccurrences\<close> (lemma
  \<open>generateNextOccurrence_maxOccurrences\<close>): for the third instance of such a series it
  returns the instant of a fourth.
\<close>

theorem fourth_occurrence_generated:
  "rtype (recurrence exThird) = Daily \<and> interval (recurrence exThird) = 1 \<and>
   maxOccurrences (recurrence exThird) = Some 3 \<and>
   scheduledTime exThird = scheduledTime exReminder + 2 * msPerDay \<and>
   generateNextOccurrence tza exThird = Some (scheduledTime exReminder + 3 * msPerDay)"
proof -
  have a: "rtype (recurrence exThird) = Daily"
    by (simp add: exThird_def exReminder_def)
  show ?thesis
    by (simp add: generateNextOccurrence_daily [OF a] a)
       (simp add: exThird_def exReminder_def msPerDay_def)
qed

section \<open>Recurrence processing\<close>

text \<open>
  The document \<^verbatim>\<open>processRecurringReminders\<close> builds has \<^verbatim>\<open>metadata.source = 'recurring'\<close>,
  which is not in the enumeration of the schema: validation rejects it, \<^verbatim>\<open>save\<close> throws, the
  \<^verbatim>\<open>catch\<close> of the loop body counts the reminder as skipped. No run creates a reminder.
\<close>

lemma nextReminder_invalid: "\<not> validate (nextReminder r i t k)"
  by (simp add: validate_def nextReminder_def sourceEnum_def)

lemma saveNew_rejected: "saveNew e p (nextReminder r i t k) d = Inl ''ValidationError''"
  by (simp add: saveNew_def nextReminder_invalid)

lemma recurringLoop_creates_nothing:
  "dbOut (recurringLoop e rs w) = dbOut w \<and> created (recurringLoop e rs w) = created w \<and>
   skipped (recurringLoop e rs w) = skipped w + length rs"
  by (induction rs arbitrary: w)
     (simp_all add: Let_def saveNew_rejected split: option.splits)

lemma recurring_creates_nothing:
  "dbOut (processRecurringReminders e d) = d \<and> created (processRecurringReminders e d) = 0"
  by (simp add: processRecurringReminders_def recurringLoop_creates_nothing split: option.splits)

text \<open>
  C7. The claim says that two runs over the same completed recurring parent create exactly
  one next occurrence. For a completed daily parent with no next occurrence stored yet,
  the query selects the parent, the next instant is computed and the duplicate check
  finds nothing, and still the run creates nothing and counts the parent as skipped; a
  second run leaves the collection as it is, too.
\<close>

theorem next_occurrence_never_created:
  "findMany (Doc [RecurrenceTypeNe NoRecurrence, StatusIs Completed,
                  ScheduledTimeLte (clock exEnv RecurringScan)])
     (exDb\<lparr>reminders := [exParent]\<rparr>) = [exParent] \<and>
   generateNextOccurrence (localTZA exEnv) exParent = Some (scheduledTime exParent + msPerDay) \<and>
   findOne (Doc [UserIs 7, TitleIs (title exParent),
                 ScheduledTimeIs (scheduledTime exParent + msPerDay),
                 RecurrenceTypeIs Daily])
     (exDb\<lparr>reminders := [exParent]\<rparr>) = None \<and>
   reminders (dbOut (processRecurringReminders exEnv (exDb\<lparr>reminders := [exParent]\<rparr>)))
     = [exParent] \<and>
   created (processRecurringReminders exEnv (exDb\<lparr>reminders := [exParent]\<rparr>)) = 0 \<and>
   skipped (processRecurringReminders exEnv (exDb\<lparr>reminders := [exParent]\<rparr>)) = 1 \<and>
   reminders (dbOut (processRecurringReminders exEnv
     (dbOut (processRecurringReminders exEnv (exDb\<lparr>reminders := [exParent]\<rparr>)))))
     = [exParent]"
proof -
  have a: "rtype (recurrence exParent) = Daily"
    by (simp add: exParent_def exReminder_def)
  have b: "findMany (Doc [RecurrenceTypeNe NoRecurrence, StatusIs Completed,
                  ScheduledTimeLte (clock exEnv RecurringScan)])
     (exDb\<lparr>reminders := [exParent]\<rparr>) = [exParent]"
    by (simp add: findMany_def exParent_def exReminder_def exEnv_def)
  have c: "generateNextOccurrence (localTZA exEnv) exParent = Some (scheduledTime exParent + msPerDay)"
    by (simp add: generateNextOccurrence_daily [OF a]) (simp add: exParent_def exReminder_def)
  have d: "findOne (Doc [UserIs 7, TitleIs (title exParent),
                 ScheduledTimeIs (scheduledTime exParent + msPerDay),
                 RecurrenceTypeIs Daily])
     (exDb\<lparr>reminders := [exParent]\<rparr>) = None"
    by (simp add: findOne_def msPerDay_def)
  have e: "dbFails exEnv FindRecurring = None"
    by (simp add: exEnv_def)
  show ?thesis
    by (simp add: b c d recurring_creates_nothing)
       (simp add: b processRecurringReminders_def e recurringLoop_creates_nothing
        del: recurringLoop.simps)
qed

section \<open>The cleanup\<close>

lemma daysAgo_eq: "daysAgo e t n = t - n * msPerDay"
  using setDate_getDate [of "localTZA e" t "- n"] by (simp add: daysAgo_def)

lemma cleanup_list:
  assumes "dbFails e ExpireShares = None" and "dbFails e DeleteCompleted = None"
    and "dbFails e DeleteCancelled = None"
  shows "reminders (cleanupExpiredData e d) =
           filter (\<lambda>r. \<not> oldCompleted e r \<and> \<not> oldCancelled e r) (map (expireShare e) (reminders d))"
proof -
  have m: "matches (Doc [IsSharedIs True, ExpiresAtLt (clock e SharesScan)]) r =
           (isShared (sharing r) \<and>
            (case expiresAt (sharing r) of None \<Rightarrow> False | Some x \<Rightarrow> x < clock e SharesScan))" for r
    by simp
  have u: "reminders (updateMany (Doc [IsSharedIs True, ExpiresAtLt (clock e SharesScan)])
                     (unshare (clock e SharesStamped)) d) = map (expireShare e) (reminders d)"
    by (simp add: updateMany_def expireShare_def)
  have c: "matches (Doc [StatusIs Completed, CompletedAtLt (daysAgo e (clock e CompletedScan) 90)]) r
           = oldCompleted e r" for r
    by (simp add: oldCompleted_def daysAgo_eq)
  have k: "matches (Doc [StatusIs Cancelled, UpdatedAtLt (daysAgo e (clock e CancelledScan) 30)]) r
           = oldCancelled e r" for r
    by (simp add: oldCancelled_def daysAgo_eq)
  show ?thesis
    using assms
    by (simp add: cleanupExpiredData_def Let_def deleteMany_def u c k del: matches.simps)
qed

lemma expireShare_completed: "oldCompleted e (expireShare e r) = oldCompleted e r"
  by (simp add: oldCompleted_def expireShare_def unshare_def)

lemma expireShare_cancelled:
  "oldCancelled e (expireShare e r) =
     (if isShared (sharing r) \<and>
         (case expiresAt (sharing r) of None \<Rightarrow> False | Some x \<Rightarrow> x < clock e SharesScan)
      then status r = Cancelled \<and> clock e SharesStamped < clock e CancelledScan - 30 * msPerDay
      else oldCancelled e r)"
  by (simp add: oldCancelled_def expireShare_def unshare_def)

text \<open>
  With the three database operations succeeding, the cleanup clears the expired share
  links and then deletes exactly the completed reminders whose \<open>completedAt\<close> is more
  than 90 days in the past and the cancelled reminders whose \<open>updatedAt\<close> is, at that
  moment, more than 30 days in the past. Clearing a share link leaves status and
  \<open>completedAt\<close> alone and sets \<open>updatedAt\<close> to the time of the run.
\<close>

lemma cleanup_sweep:
  assumes "dbFails e ExpireShares = None" and "dbFails e DeleteCompleted = None"
    and "dbFails e DeleteCancelled = None"
  shows "reminders (cleanupExpiredData e d) =
           filter (\<lambda>r. \<not> oldCompleted e r \<and> \<not> oldCancelled e r)
             (map (expireShare e) (reminders d)) \<and>
         oldCompleted e (expireShare e r) = oldCompleted e r \<and>
         oldCancelled e (expireShare e r) =
           (if isShared (sharing r) \<and>
               (case expiresAt (sharing r) of None \<Rightarrow> False | Some x \<Rightarrow> x < clock e SharesScan)
            then status r = Cancelled \<and>
                 clock e SharesStamped < clock e CancelledScan - 30 * msPerDay
            else oldCancelled e r)"
proof -
  have "reminders (cleanupExpiredData e d) =
           filter (\<lambda>r. \<not> oldCompleted e r \<and> \<not> oldCancelled e r)
             (map (expireShare e) (reminders d))"
    using assms by (rule cleanup_list)
  moreover note expireShare_completed [of e r] expireShare_cancelled [of e r]
  ultimately show ?thesis by blast
qed

lemma exOld_facts:
  "oldCompleted exEnv (exCompleted 1 (1700000060000 - 91 * msPerDay))"
  "\<not> oldCompleted exEnv (exCompleted 2 (1700000060000 - 89 * msPerDay))"
  "oldCancelled exEnv (exCancelled 3 (1700000060000 - 31 * msPerDay))"
  "oldCancelled exEnv (exShared (1700000060000 - 41 * msPerDay)
     (exCancelled 4 (1700000060000 - 40 * msPerDay)))"
  by (simp_all add: oldCompleted_def oldCancelled_def exCompleted_def exCancelled_def
      exShared_def exEnv_def msPerDay_def)

text \<open>
  On \<open>exOld\<close>: the reminder completed 91 days ago and the one cancelled 31 days ago are
  deleted, the one completed 89 days ago is retained.
\<close>

lemma cleanup_sweep_example:
  "dbFails exEnv ExpireShares = None \<and> dbFails exEnv DeleteCompleted = None \<and>
   dbFails exEnv DeleteCancelled = None \<and>
   oldCompleted exEnv (exCompleted 1 (1700000060000 - 91 * msPerDay)) \<and>
   \<not> oldCompleted exEnv (exCompleted 2 (1700000060000 - 89 * msPerDay)) \<and>
   oldCancelled exEnv (exCancelled 3 (1700000060000 - 31 * msPerDay)) \<and>
   map rid (reminders (cleanupExpiredData exEnv (exDb\<lparr>reminders := exOld\<rparr>))) = [2, 4]"
proof -
  have h: "dbFails exEnv ExpireShares = None" "dbFails exEnv DeleteCompleted = None"
    "dbFails exEnv DeleteCancelled = None"
    by (simp_all add: exEnv_def)
  have "map rid (filter (\<lambda>r. \<not> oldCompleted exEnv r \<and> \<not> oldCancelled exEnv r)
          (map (expireShare exEnv) exOld)) = [2, 4]"
    by (simp add: exOld_def expireShare_def unshare_def oldCompleted_def oldCancelled_def
        exCompleted_def exCancelled_def exShared_def exEnv_def msPerDay_def exReminder_def)
  then show ?thesis
    using cleanup_sweep [OF h, of "exDb\<lparr>reminders := exOld\<rparr>"] exOld_facts
    by (simp add: h)
qed

text \<open>
  C9. The claim says that the daily cleanup hard-deletes every cancelled reminder older
  than 30 days, as it deletes every completed reminder older than 90 days. For completed
  reminders that is what the code does. For cancelled ones the age is read from
  \<open>updatedAt\<close>, which the first step of the same run has just set to the time of the run
  on every reminder whose expired share link it cleared. So a reminder cancelled and last
  updated 40 days ago, whose share link expired 41 days ago and was not cleared since, is
  still in the collection after the cleanup, cancelled, unshared, and stamped with the
  time of the run; the same reminder without a share link is deleted.
\<close>

theorem old_cancelled_reminder_retained:
  "status (exShared (1700000060000 - 41 * msPerDay)
             (exCancelled 4 (1700000060000 - 40 * msPerDay))) = Cancelled \<and>
   updatedAt (exShared (1700000060000 - 41 * msPerDay)
                (exCancelled 4 (1700000060000 - 40 * msPerDay)))
     = clock exEnv CancelledScan - 40 * msPerDay \<and>
   map (\<lambda>r. (rid r, status r, isShared (sharing r), updatedAt r))
     (reminders (cleanupExpiredData exEnv
        (exDb\<lparr>reminders := [exShared (1700000060000 - 41 * msPerDay)
                                (exCancelled 4 (1700000060000 - 40 * msPerDay))]\<rparr>)))
     = [(4, Cancelled, False, clock exEnv SharesStamped)] \<and>
   reminders (cleanupExpiredData exEnv
     (exDb\<lparr>reminders := [exCancelled 4 (1700000060000 - 40 * msPerDay)]\<rparr>)) = []"
proof -
  have h: "dbFails exEnv ExpireShares = None" "dbFails exEnv DeleteCompleted = None"
    "dbFails exEnv DeleteCancelled = None"
    by (simp_all add: exEnv_def)
  show ?thesis
    by (simp add: cleanup_list [OF h])
       (simp add: expireShare_def unshare_def oldCompleted_def oldCancelled_def
        exCancelled_def exShared_def exEnv_def msPerDay_def exReminder_def)
qed

section \<open>The due cycle\<close>

text \<open>
  A delivery changes neither the id, the status nor the metadata of the reminder, and it
  keeps the ids of the collection; it makes at most one push call and one email call, for
  its own reminder, and writes no snooze reset.
\<close>

lemma send_ids:
  "map rid (reminders (dbAfter (sendReminderNotification e r usr d))) = map rid (reminders d)"
proof (cases usr)
  case None
  then show ?thesis by (simp add: sendReminderNotification_def)
next
  case (Some u)
  let ?s = "emailStep e (pushStep e (start r u d))"
  show ?thesis
  proof (cases "dbFails e (SaveDelivery (rid r))")
    case (Some msg)
    then show ?thesis
      using \<open>usr = Some u\<close> delivery_store_reminders [of e r u d]
      by (simp add: sendReminderNotification_def Let_def start_def)
  next
    case None
    show ?thesis
    proof (cases "saveReminder (clock e (DeliverySaved (rid r))) (doc ?s) (store ?s)")
      case (Inl msg)
      then show ?thesis
        using None \<open>usr = Some u\<close> delivery_store_reminders [of e r u d]
        by (simp add: sendReminderNotification_def Let_def start_def)
    next
      case (Inr p)
      obtain r' d' where p: "p = (r', d')" by (cases p)
      have "map rid (reminders d') = map rid (reminders d)"
        using saveReminder_core [OF Inr [unfolded p]] delivery_store_reminders [of e r u d]
        by simp
      then show ?thesis
        using None Inr p \<open>usr = Some u\<close>
        by (simp add: sendReminderNotification_def Let_def start_def)
    qed
  qed
qed

lemma made_cases:
  "made (sendReminderNotification e r usr d) =
     (case usr of
        None \<Rightarrow> []
      | Some u \<Rightarrow>
          (if pushEnabled u
           then [WebPushCall (rid r) (pushSubscription u)
                   (if priority r = Urgent then HighUrgency else NormalUrgency)]
           else []) @
          (case emailAttempt e r u of None \<Rightarrow> [] | Some er \<Rightarrow> [EmailCall (rid r) (address u)]))"
proof (cases usr)
  case None
  then show ?thesis by (simp add: no_user_no_calls)
next
  case (Some u)
  have a: "calls (pushStep e (start r u d)) =
      (if pushEnabled u
       then [WebPushCall (rid r) (pushSubscription u)
               (if priority r = Urgent then HighUrgency else NormalUrgency)]
       else [])"
    by (simp add: pushStep_calls start_def)
  have "calls (emailStep e (pushStep e (start r u d))) =
           calls (pushStep e (start r u d)) @
             (case emailAttempt e r u of None \<Rightarrow> [] | Some er \<Rightarrow> [EmailCall (rid r) (address u)])"
    by (simp add: emailStep_pushStep Let_def split: option.splits)
  then show ?thesis
    using Some by (simp add: made_send a)
qed

lemma made_counts:
  "pushCount i (made (sendReminderNotification e r usr d)) \<le> (if rid r = i then 1 else 0) \<and>
   emailCount i (made (sendReminderNotification e r usr d)) \<le> (if rid r = i then 1 else 0) \<and>
   filter isSnoozeReset (made (sendReminderNotification e r usr d)) = []"
  by (simp add: made_cases pushCount_def emailCount_def split: option.splits)

lemma count_append_le:
  "pushCount i (xs @ ys) = pushCount i xs + pushCount i ys \<and>
   emailCount i (xs @ ys) = emailCount i xs + emailCount i ys"
  by (simp add: pushCount_def emailCount_def)

lemma sendBulkLoop_docs:
  "map core (docs (sendBulkLoop e rs b)) = map core (docs b) @ map core rs"
  by (induction rs arbitrary: b) (simp_all add: Let_def send_core)

lemma sendBulkLoop_ids:
  "map rid (reminders (database (sendBulkLoop e rs b))) = map rid (reminders (database b))"
  by (induction rs arbitrary: b) (simp_all add: Let_def send_ids)

lemma sendBulkLoop_resets:
  "filter isSnoozeReset (trace (sendBulkLoop e rs b)) = filter isSnoozeReset (trace b)"
  by (induction rs arbitrary: b) (simp_all add: Let_def made_counts)

lemma sendBulkLoop_pushCount:
  "pushCount i (trace (sendBulkLoop e rs b)) \<le> pushCount i (trace b) + count_list (map rid rs) i"
proof (induction rs arbitrary: b)
  case Nil
  then show ?case by simp
next
  case (Cons r rs)
  let ?x = "sendReminderNotification e r (loaded b (user r)) (database b)"
  have "pushCount i (made ?x) \<le> (if rid r = i then 1 else 0)"
    using made_counts by blast
  then show ?case
    using Cons.IH [of "b\<lparr>entries := entries b @ [bulkEntry r (outcome ?x)],
              docs := docs b @ [reminderDoc ?x],
              loaded := (case userDoc ?x of
                           None \<Rightarrow> loaded b
                         | Some u \<Rightarrow> (loaded b)(user r \<mapsto> u)),
              database := dbAfter ?x,
              trace := trace b @ made ?x\<rparr>"]
    by (simp add: Let_def count_append_le split: if_splits)
qed

lemma sendBulkLoop_emailCount:
  "emailCount i (trace (sendBulkLoop e rs b)) \<le> emailCount i (trace b) + count_list (map rid rs) i"
proof (induction rs arbitrary: b)
  case Nil
  then show ?case by simp
next
  case (Cons r rs)
  let ?x = "sendReminderNotification e r (loaded b (user r)) (database b)"
  have "emailCount i (made ?x) \<le> (if rid r = i then 1 else 0)"
    using made_counts by blast
  then show ?case
    using Cons.IH [of "b\<lparr>entries := entries b @ [bulkEntry r (outcome ?x)],
              docs := docs b @ [reminderDoc ?x],
              loaded := (case userDoc ?x of
                           None \<Rightarrow> loaded b
                         | Some u \<Rightarrow> (loaded b)(user r \<mapsto> u)),
              database := dbAfter ?x,
              trace := trace b @ made ?x\<rparr>"]
    by (simp add: Let_def count_append_le split: if_splits)
qed

lemma resetSnoozed_ids:
  "map rid (reminders (fst (resetSnoozed e rs (d, tr)))) = map rid (reminders d)"
proof (induction rs arbitrary: d tr)
  case Nil
  then show ?case by simp
next
  case (Cons r rs)
  show ?case
    using Cons.IH saveReminder_core
    by (auto split: option.splits sum.splits)
qed

lemma resetSnoozed_trace:
  "\<exists>ys. snd (resetSnoozed e rs (d, tr)) = tr @ ys \<and> list_all isSnoozeReset ys \<and>
        pushCount i ys = 0 \<and> emailCount i ys = 0"
proof (induction rs arbitrary: d tr)
  case Nil
  then show ?case by (simp add: pushCount_def emailCount_def)
next
  case (Cons r rs)
  have base: "\<exists>ys. tr = tr @ ys \<and> list_all isSnoozeReset ys \<and>
        pushCount i ys = 0 \<and> emailCount i ys = 0"
    by (rule exI [of _ "[]"]) (simp add: pushCount_def emailCount_def)
  have step: "\<exists>ys. snd (resetSnoozed e rs (d', tr @ [SnoozeReset k])) = tr @ ys \<and>
        list_all isSnoozeReset ys \<and> pushCount i ys = 0 \<and> emailCount i ys = 0" for d' k
  proof -
    obtain ys where ys: "snd (resetSnoozed e rs (d', tr @ [SnoozeReset k])) = (tr @ [SnoozeReset k]) @ ys"
      "list_all isSnoozeReset ys" "pushCount i ys = 0" "emailCount i ys = 0"
      using Cons.IH [of d' "tr @ [SnoozeReset k]"] by blast
    show ?thesis
      by (rule exI [of _ "SnoozeReset k # ys"]) (use ys in \<open>simp add: pushCount_def emailCount_def\<close>)
  qed
  show ?case
    using Cons.IH [of d tr] base step
    by (simp split: option.splits sum.splits prod.splits)
qed

lemma find_other:
  "rid r' = k \<Longrightarrow> i \<noteq> k \<Longrightarrow>
   find (\<lambda>y. rid y = i) (map (\<lambda>z. if rid z = k then r' else z) xs) = find (\<lambda>y. rid y = i) xs"
  by (induction xs) auto

lemma find_present:
  "i \<in> set (map rid xs) \<Longrightarrow> \<exists>y. find (\<lambda>x. rid x = i) xs = Some y"
  by (induction xs) auto

lemma saveReminder_other:
  "saveReminder now r d = Inr (r', d') \<Longrightarrow> i \<noteq> rid r \<Longrightarrow>
   find (\<lambda>y. rid y = i) (reminders d') = find (\<lambda>y. rid y = i) (reminders d)"
  by (auto simp: saveReminder_def Let_def find_other split: option.splits if_splits)

lemma resetSnoozed_other:
  "i \<notin> set (map rid rs) \<Longrightarrow>
   find (\<lambda>y. rid y = i) (reminders (fst (resetSnoozed e rs (d, tr)))) =
   find (\<lambda>y. rid y = i) (reminders d)"
proof (induction rs arbitrary: d tr)
  case Nil
  then show ?case by simp
next
  case (Cons r rs)
  have i: "i \<noteq> rid r" "i \<notin> set (map rid rs)"
    using Cons.prems by auto
  have "i \<noteq> rid (r\<lparr>status := Pending, metadata := (metadata r)\<lparr>snoozeUntil := None\<rparr>\<rparr>)"
    using i by simp
  from saveReminder_other [OF _ this] Cons.IH [OF i(2)]
  show ?case
    by (auto split: option.splits sum.splits)
qed

lemma resetSnoozed_skip:
  "\<not> (status h = Snoozed \<and>
         (case snoozeUntil (metadata h) of
            None \<Rightarrow> False
          | Some u \<Rightarrow> u \<le> clock e (SnoozeChecked (rid h)))) \<Longrightarrow>
   resetSnoozed e (h # rs) (d, tr) = resetSnoozed e rs (d, tr)"
  by (subst resetSnoozed.simps) (rule if_not_P)

lemma resetSnoozed_save:
  "status h = Snoozed \<Longrightarrow> snoozeUntil (metadata h) = Some u \<Longrightarrow>
   u \<le> clock e (SnoozeChecked (rid h)) \<Longrightarrow>
   dbFails e (SaveSnoozeReset (rid h)) = None \<Longrightarrow>
   saveReminder (clock e (SnoozeSaved (rid h)))
     (h\<lparr>status := Pending, metadata := (metadata h)\<lparr>snoozeUntil := None\<rparr>\<rparr>) d = Inr (h', d') \<Longrightarrow>
   resetSnoozed e (h # rs) (d, tr) = resetSnoozed e rs (d', tr @ [SnoozeReset (rid h)])"
  by simp

lemma resetSnoozed_done:
  assumes "distinct (map rid rs)"
    and "set (map rid rs) \<subseteq> set (map rid (reminders d))"
    and "\<forall>i. dbFails e (SaveSnoozeReset i) = None"
    and "r \<in> set rs" and "status r = Snoozed"
    and "snoozeUntil (metadata r) = Some t" and "t \<le> clock e (SnoozeChecked (rid r))"
  shows "\<exists>r'. find (\<lambda>y. rid y = rid r) (reminders (fst (resetSnoozed e rs (d, tr)))) = Some r' \<and>
              status r' = Pending \<and> snoozeUntil (metadata r') = None"
  using assms
proof (induction rs arbitrary: d tr)
  case Nil
  then show ?case by simp
next
  case (Cons h rs)
  let ?q = "status h = Snoozed \<and>
         (case snoozeUntil (metadata h) of
            None \<Rightarrow> False
          | Some u \<Rightarrow> u \<le> clock e (SnoozeChecked (rid h)))"
  let ?h = "h\<lparr>status := Pending, metadata := (metadata h)\<lparr>snoozeUntil := None\<rparr>\<rparr>"
  have dist: "distinct (map rid rs)" "rid h \<notin> set (map rid rs)"
    using Cons.prems(1) by simp_all
  have nofail: "dbFails e (SaveSnoozeReset (rid h)) = None"
    using Cons.prems(3) by simp
  have sub: "set (map rid rs) \<subseteq> set (map rid (reminders d))"
    "rid h \<in> set (map rid (reminders d))"
    using Cons.prems(2) by simp_all
  show ?case
  proof (cases ?q)
    case False
    have "r \<noteq> h"
    proof
      assume "r = h"
      then have ?q using Cons.prems(5,6,7) by simp
      then show False using False by simp
    qed
    then have "r \<in> set rs"
      using Cons.prems(4) by simp
    from Cons.IH [OF dist(1) sub(1) Cons.prems(3) this Cons.prems(5,6,7), of tr]
    show ?thesis
      unfolding resetSnoozed_skip [OF False] .
  next
    case True
    then obtain u where u: "status h = Snoozed" "snoozeUntil (metadata h) = Some u"
      "u \<le> clock e (SnoozeChecked (rid h))"
      by (cases "snoozeUntil (metadata h)") simp_all
    have "rid ?h = rid h" by simp
    then obtain y where y: "find (\<lambda>x. rid x = rid ?h) (reminders d) = Some y"
      using find_present [OF sub(2)] by auto
    obtain p where p: "saveReminder (clock e (SnoozeSaved (rid h))) ?h d = Inr p"
      using saveReminder_found [OF y] by blast
    obtain h' d' where hd: "p = (h', d')" by (cases p)
    have sv: "saveReminder (clock e (SnoozeSaved (rid h))) ?h d = Inr (h', d')"
      using p hd by simp
    have st: "find (\<lambda>y. rid y = rid h) (reminders d') = Some h'"
      using saveReminder_stored [OF sv] by simp
    have "core h' = core ?h" "map rid (reminders d') = map rid (reminders d)"
      using saveReminder_core [OF sv] by simp_all
    then have co: "status h' = Pending" "snoozeUntil (metadata h') = None"
      "map rid (reminders d') = map rid (reminders d)"
      by (simp_all add: core_def)
    note unfold = resetSnoozed_save [OF u nofail sv, of rs tr]
    show ?thesis
    proof (cases "rid r = rid h")
      case True
      have "find (\<lambda>y. rid y = rid r)
              (reminders (fst (resetSnoozed e rs (d', tr @ [SnoozeReset (rid h)])))) = Some h'"
        using resetSnoozed_other [OF dist(2), of e d' "tr @ [SnoozeReset (rid h)]"] st True
        by simp
      then show ?thesis
        unfolding unfold using co by blast
    next
      case False
      then have "r \<noteq> h" by auto
      then have rs: "r \<in> set rs"
        using Cons.prems(4) by simp
      have sub': "set (map rid rs) \<subseteq> set (map rid (reminders d'))"
        using sub(1) co(3) by simp
      from Cons.IH [OF dist(1) sub' Cons.prems(3) rs Cons.prems(5,6,7),
          of "tr @ [SnoozeReset (rid h)]"]
      show ?thesis
        unfolding unfold .
    qed
  qed
qed

lemma count_distinct: "distinct xs \<Longrightarrow> count_list xs i \<le> 1"
  by (induction xs) auto

lemma due_distinct:
  "distinct (map rid (reminders d)) \<Longrightarrow> distinct (map rid (findDueReminders now d))"
  by (simp add: findDueReminders_def findMany_def distinct_map_filter)

lemma map_core_rid: "map core xs = map core ys \<Longrightarrow> map rid xs = map rid ys"
proof -
  assume "map core xs = map core ys"
  then have "map fst (map core xs) = map fst (map core ys)" by simp
  then show ?thesis by (simp add: core_def comp_def)
qed

lemma bulk_facts:
  fixes e d rs
  defines "b \<equiv> sendBulkNotifications e rs (populate d) d"
  shows "map core (docs b) = map core rs"
    and "map rid (reminders (database b)) = map rid (reminders d)"
    and "filter isSnoozeReset (trace b) = []"
    and "pushCount i (trace b) \<le> count_list (map rid rs) i"
    and "emailCount i (trace b) \<le> count_list (map rid rs) i"
  using sendBulkLoop_docs [of e rs "\<lparr>entries = [], docs = [], loaded = populate d, database = d, trace = []\<rparr>"]
    sendBulkLoop_ids [of e rs "\<lparr>entries = [], docs = [], loaded = populate d, database = d, trace = []\<rparr>"]
    sendBulkLoop_resets [of e rs "\<lparr>entries = [], docs = [], loaded = populate d, database = d, trace = []\<rparr>"]
    sendBulkLoop_pushCount [of i e rs "\<lparr>entries = [], docs = [], loaded = populate d, database = d, trace = []\<rparr>"]
    sendBulkLoop_emailCount [of i e rs "\<lparr>entries = [], docs = [], loaded = populate d, database = d, trace = []\<rparr>"]
  by (simp_all add: b_def sendBulkNotifications_def pushCount_def emailCount_def)

lemma cycle_unfold:
  "dbFails e FindDue = None \<Longrightarrow> findDueReminders (clock e DueScan) d \<noteq> [] \<Longrightarrow>
   processDueReminders e d =
     resetSnoozed e
       (docs (sendBulkNotifications e (findDueReminders (clock e DueScan) d) (populate d) d))
       (database (sendBulkNotifications e (findDueReminders (clock e DueScan) d) (populate d) d),
        trace (sendBulkNotifications e (findDueReminders (clock e DueScan) d) (populate d) d))"
  by (simp add: processDueReminders_def Let_def)

lemma cycle_trace:
  assumes "distinct (map rid (reminders d))"
  shows "snd (processDueReminders e d) =
           filter (\<lambda>ev. \<not> isSnoozeReset ev) (snd (processDueReminders e d)) @
           filter isSnoozeReset (snd (processDueReminders e d)) \<and>
         pushCount i (snd (processDueReminders e d)) \<le> 1 \<and>
         emailCount i (snd (processDueReminders e d)) \<le> 1"
proof (cases "dbFails e FindDue = None \<and> findDueReminders (clock e DueScan) d \<noteq> []")
  case False
  then have "snd (processDueReminders e d) = []"
    by (auto simp: processDueReminders_def Let_def split: option.splits)
  then show ?thesis
    by (simp add: pushCount_def emailCount_def)
next
  case True
  let ?due = "findDueReminders (clock e DueScan) d"
  let ?b = "sendBulkNotifications e ?due (populate d) d"
  obtain ys where ys: "snd (resetSnoozed e (docs ?b) (database ?b, trace ?b)) = trace ?b @ ys"
    "list_all isSnoozeReset ys" "pushCount i ys = 0" "emailCount i ys = 0"
    using resetSnoozed_trace [of e "docs ?b" "database ?b" "trace ?b" i] by blast
  have tr: "snd (processDueReminders e d) = trace ?b @ ys"
    using True ys(1) by (simp add: cycle_unfold)
  have nr: "filter isSnoozeReset (trace ?b) = []"
    by (rule bulk_facts)
  then have f1: "filter (\<lambda>ev. \<not> isSnoozeReset ev) (trace ?b) = trace ?b"
    by (simp add: filter_empty_conv)
  have f2: "filter isSnoozeReset ys = ys" "filter (\<lambda>ev. \<not> isSnoozeReset ev) ys = []"
    using ys(2) by (simp_all add: list_all_iff filter_empty_conv)
  have c: "count_list (map rid ?due) i \<le> 1"
    using count_distinct [OF due_distinct [OF assms]] .
  have p: "pushCount i (trace ?b) \<le> 1" "emailCount i (trace ?b) \<le> 1"
    using bulk_facts(4) [of i e ?due d] bulk_facts(5) [of i e ?due d] c by simp_all
  show ?thesis
    unfolding tr using nr f1 f2 p ys(3,4) by (simp add: count_append_le)
qed

lemma cycle_reset:
  assumes "distinct (map rid (reminders d))"
    and "dbFails e FindDue = None" and "\<forall>i. dbFails e (SaveSnoozeReset i) = None"
    and "\<forall>i. clock e DueScan \<le> clock e (SnoozeChecked i)"
    and "r \<in> set (reminders d)" and "status r = Snoozed"
    and "snoozeUntil (metadata r) = Some t" and "t \<le> clock e DueScan"
  shows "\<exists>r'. find (\<lambda>y. rid y = rid r) (reminders (fst (processDueReminders e d))) = Some r' \<and>
              status r' = Pending \<and> snoozeUntil (metadata r') = None"
proof -
  let ?due = "findDueReminders (clock e DueScan) d"
  let ?b = "sendBulkNotifications e ?due (populate d) d"
  have "due (clock e DueScan) r"
    using assms(6,7,8) by (simp add: due_def)
  then have rdue: "r \<in> set ?due"
    using assms(5) by (simp add: findDueReminders_set)
  then have ne: "?due \<noteq> []" by auto
  have cores: "map core (docs ?b) = map core ?due"
    by (rule bulk_facts)
  have ids: "map rid (docs ?b) = map rid ?due"
    using map_core_rid [OF cores] .
  have "core r \<in> set (map core (docs ?b))"
    using rdue cores by simp
  then obtain r1 where r1: "r1 \<in> set (docs ?b)" "core r1 = core r"
    by auto
  have dist: "distinct (map rid (docs ?b))"
    using due_distinct [OF assms(1)] ids by simp
  have "set (map rid ?due) \<subseteq> set (map rid (reminders d))"
    by (auto simp: findDueReminders_set)
  then have sub: "set (map rid (docs ?b)) \<subseteq> set (map rid (reminders (database ?b)))"
    using ids bulk_facts(2) [of e ?due d] by simp
  have q: "status r1 = Snoozed" "snoozeUntil (metadata r1) = Some t"
    "t \<le> clock e (SnoozeChecked (rid r1))" "rid r1 = rid r"
    using r1(2) assms(4,6,7,8) by (auto simp: core_def intro: order_trans)
  from resetSnoozed_done [OF dist sub assms(3) r1(1) q(1,2,3), of "trace ?b"]
  show ?thesis
    unfolding cycle_unfold [OF assms(2) ne] q(4) .
qed

text \<open>
  C6. In a collection whose reminders have distinct ids: after one due-processing cycle
  whose scan and reset saves succeed, on a clock that does not run backwards between the
  scan and the reset loop, every snoozed reminder whose \<open>snoozeUntil\<close> was at or before
  the scan time is stored with status pending and \<open>snoozeUntil\<close> cleared. In the calls of
  the cycle every snooze reset comes after every channel call, and no reminder gets a
  second push call or a second email call.
\<close>

theorem snoozed_reset_after_dispatch:
  assumes "distinct (map rid (reminders d))"
  shows "(dbFails e FindDue = None \<and> (\<forall>i. dbFails e (SaveSnoozeReset i) = None) \<and>
          (\<forall>i. clock e DueScan \<le> clock e (SnoozeChecked i)) \<and>
          r \<in> set (reminders d) \<and> status r = Snoozed \<and>
          snoozeUntil (metadata r) = Some t \<and> t \<le> clock e DueScan \<longrightarrow>
            (\<exists>r'. find (\<lambda>y. rid y = rid r) (reminders (fst (processDueReminders e d))) = Some r' \<and>
                  status r' = Pending \<and> snoozeUntil (metadata r') = None)) \<and>
         snd (processDueReminders e d) =
           filter (\<lambda>ev. \<not> isSnoozeReset ev) (snd (processDueReminders e d)) @
           filter isSnoozeReset (snd (processDueReminders e d)) \<and>
         pushCount i (snd (processDueReminders e d)) \<le> 1 \<and>
         emailCount i (snd (processDueReminders e d)) \<le> 1"
proof -
  have "\<exists>r'. find (\<lambda>y. rid y = rid r) (reminders (fst (processDueReminders e d))) = Some r' \<and>
              status r' = Pending \<and> snoozeUntil (metadata r') = None"
    if "dbFails e FindDue = None" "\<forall>i. dbFails e (SaveSnoozeReset i) = None"
      "\<forall>i. clock e DueScan \<le> clock e (SnoozeChecked i)"
      "r \<in> set (reminders d)" "status r = Snoozed"
      "snoozeUntil (metadata r) = Some t" "t \<le> clock e DueScan"
    using cycle_reset [OF assms that] .
  moreover note cycle_trace [OF assms, of e i]
  ultimately show ?thesis by blast
qed

lemma exSnoozed_cycle:
  "map status (reminders (fst (processDueReminders exEnv (exDb\<lparr>reminders := [exSnoozed]\<rparr>))))
     = [Pending] \<and>
   map (\<lambda>x. snoozeUntil (metadata x))
     (reminders (fst (processDueReminders exEnv (exDb\<lparr>reminders := [exSnoozed]\<rparr>)))) = [None] \<and>
   snd (processDueReminders exEnv (exDb\<lparr>reminders := [exSnoozed]\<rparr>))
     = [WebPushCall 1 (Some exSubscription) NormalUrgency, SnoozeReset 1]"
  by (simp add: processDueReminders_def findDueReminders_def findMany_def populate_def
      sendBulkNotifications_def sendReminderNotification_def pushStep_def emailStep_def
      shouldSendEmail_def sendWebPush_def saveReminder_def setWebPush_def Let_def
      initialResults_def exSnoozed_def exReminder_def exDb_def exEnv_def exUser_def)

theorem snoozed_reset_after_dispatch_witness:
  "distinct (map rid (reminders (exDb\<lparr>reminders := [exSnoozed]\<rparr>))) \<and>
   dbFails exEnv FindDue = None \<and> (\<forall>i. dbFails exEnv (SaveSnoozeReset i) = None) \<and>
   (\<forall>i. clock exEnv DueScan \<le> clock exEnv (SnoozeChecked i)) \<and>
   exSnoozed \<in> set (reminders (exDb\<lparr>reminders := [exSnoozed]\<rparr>)) \<and>
   status exSnoozed = Snoozed \<and> snoozeUntil (metadata exSnoozed) = Some 1700000059000 \<and>
   1700000059000 \<le> clock exEnv DueScan \<and>
   (\<exists>r'. find (\<lambda>y. rid y = rid exSnoozed)
           (reminders (fst (processDueReminders exEnv (exDb\<lparr>reminders := [exSnoozed]\<rparr>)))) = Some r' \<and>
         status r' = Pending \<and> snoozeUntil (metadata r') = None) \<and>
   snd (processDueReminders exEnv (exDb\<lparr>reminders := [exSnoozed]\<rparr>))
     = [WebPushCall 1 (Some exSubscription) NormalUrgency, SnoozeReset 1] \<and>
   pushCount 1 (snd (processDueReminders exEnv (exDb\<lparr>reminders := [exSnoozed]\<rparr>))) \<le> 1"
proof -
  have a: "distinct (map rid (reminders (exDb\<lparr>reminders := [exSnoozed]\<rparr>)))"
    by simp
  have h: "dbFails exEnv FindDue = None" "\<forall>i. dbFails exEnv (SaveSnoozeReset i) = None"
    "\<forall>i. clock exEnv DueScan \<le> clock exEnv (SnoozeChecked i)"
    "1700000059000 \<le> clock exEnv DueScan"
    by (simp_all add: exEnv_def)
  have s: "exSnoozed \<in> set (reminders (exDb\<lparr>reminders := [exSnoozed]\<rparr>))"
    "status exSnoozed = Snoozed" "snoozeUntil (metadata exSnoozed) = Some 1700000059000"
    by (simp_all add: exSnoozed_def)
  show ?thesis
    using snoozed_reset_after_dispatch [OF a, of exEnv exSnoozed 1700000059000 1]
      exSnoozed_cycle a h s
    by simp
qed

end
